theory Spec2Isabelle
  imports Complex_Main "HOL-Library.Word"
begin

unbundle bit_operations_syntax

section \<open>Python values\<close>

text \<open>
  Bytes objects are lists of 8-bit words. A Python \<open>str\<close> is a list of code points
  (natural numbers), so that \<open>len\<close> counts code points as Python does; the literal
  \<open>"abc"\<close> is written \<open>str ''abc''\<close>. Python floats are modelled by the real numbers
  they denote: products such as \<open>x * 0.25\<close> and \<open>x * 1e-7\<close> are exact products, the
  rounding of binary floating point is not part of the model. Exceptions are values of the
  type \<open>error\<close>; a computation that may raise returns \<open>error + 'a\<close>.
\<close>

type_synonym byte = "8 word"
type_synonym pystr = "nat list"

datatype error = IndexError | StructError | ValueError | ZeroDivisionError | LibraryError

definition str :: "string \<Rightarrow> pystr" where
  "str s = map of_char s"

definition bindE :: "error + 'a \<Rightarrow> ('a \<Rightarrow> error + 'b) \<Rightarrow> error + 'b" where
  "bindE m f = (case m of Inl e \<Rightarrow> Inl e | Inr v \<Rightarrow> f v)"

definition getitem :: "'a list \<Rightarrow> nat \<Rightarrow> error + 'a" where
  \<comment> \<open>\<open>data[i]\<close> for a non-negative index: IndexError out of range.\<close>
  "getitem data i = (if i < length data then Inr (data ! i) else Inl IndexError)"

definition slice :: "'a list \<Rightarrow> nat \<Rightarrow> nat \<Rightarrow> 'a list" where
  \<comment> \<open>\<open>data[a:b]\<close> for non-negative bounds: a slice never raises, it is cut at the end.\<close>
  "slice data a b = take (b - a) (drop a data)"

definition le_uint :: "byte list \<Rightarrow> int" where
  \<comment> \<open>The unsigned little-endian value of a byte string.\<close>
  "le_uint bs = foldr (\<lambda>b acc. uint b + 256 * acc) bs 0"


definition unpack_signed :: "nat \<Rightarrow> byte list \<Rightarrow> error + int" where
  \<comment> \<open>\<open>struct.unpack('b', bs)[0]\<close> (n = 1), \<open>'<h'\<close> (n = 2) and \<open>'<i'\<close> (n = 4).\<close>
  "unpack_signed n bs =
     (if length bs \<noteq> n then Inl StructError
      else let u = le_uint bs
           in Inr (if 2 ^ (8 * n - 1) \<le> u then u - 2 ^ (8 * n) else u))"

definition hex_digit :: "nat \<Rightarrow> nat" where
  "hex_digit n = (str ''0123456789abcdef'') ! n"

definition hex_byte :: "byte \<Rightarrow> pystr" where
  "hex_byte b = [hex_digit (unat b div 16), hex_digit (unat b mod 16)]"

definition bytes_hex :: "byte list \<Rightarrow> pystr" where
  \<comment> \<open>\<open>b.hex()\<close>\<close>
  "bytes_hex bs = concat (map hex_byte bs)"

definition upper_char :: "nat \<Rightarrow> nat" where
  "upper_char c = (if 97 \<le> c \<and> c \<le> 122 then c - 32 else c)"

definition lower_char :: "nat \<Rightarrow> nat" where
  "lower_char c = (if 65 \<le> c \<and> c \<le> 90 then c + 32 else c)"

definition upper :: "pystr \<Rightarrow> pystr" where
  \<comment> \<open>\<open>s.upper()\<close> on the ASCII strings of this program.\<close>
  "upper s = map upper_char s"

definition lower :: "pystr \<Rightarrow> pystr" where
  \<comment> \<open>\<open>s.lower()\<close> on the ASCII strings of this program.\<close>
  "lower s = map lower_char s"

fun is_prefix :: "'a list \<Rightarrow> 'a list \<Rightarrow> bool" where
  "is_prefix [] ys = True"
| "is_prefix (x # xs) [] = False"
| "is_prefix (x # xs) (y # ys) = (x = y \<and> is_prefix xs ys)"

fun find_from :: "'a list \<Rightarrow> 'a list \<Rightarrow> nat \<Rightarrow> nat option" where
  "find_from pat [] i = (if pat = [] then Some i else None)"
| "find_from pat (y # ys) i =
     (if is_prefix pat (y # ys) then Some i else find_from pat ys (Suc i))"

definition find_sub :: "'a list \<Rightarrow> 'a list \<Rightarrow> nat option" where
  \<comment> \<open>\<open>data.find(pat)\<close>: the least offset of an occurrence, \<open>None\<close> for Python's \<open>-1\<close>.\<close>
  "find_sub data pat = find_from pat data 0"

definition contains :: "'a list \<Rightarrow> 'a list \<Rightarrow> bool" where
  \<comment> \<open>\<open>pat in s\<close>\<close>
  "contains s pat = (find_sub s pat \<noteq> None)"

definition rstrip_nul :: "pystr \<Rightarrow> pystr" where
  \<comment> \<open>\<open>s.rstrip('\x00')\<close>\<close>
  "rstrip_nul s = rev (dropWhile (\<lambda>c. c = 0) (rev s))"

subsection \<open>UTF-8 decoding with errors ignored\<close>

text \<open>
  \<open>b.decode('utf-8', errors='ignore')\<close> as CPython decodes: a well-formed sequence gives
  one code point; an ill-formed one is dropped up to, and not including, the byte at which
  it stopped being a prefix of a well-formed sequence; a sequence cut by the end of the
  input is dropped whole.
\<close>

definition is_cont :: "byte \<Rightarrow> bool" where
  "is_cont b = (0x80 \<le> unat b \<and> unat b \<le> 0xBF)"

definition second_ok :: "byte \<Rightarrow> byte \<Rightarrow> bool" where
  \<comment> \<open>The second byte after a three- or four-byte lead: a continuation byte that gives
      no overlong form, no surrogate and no code point above 0x10FFFF.\<close>
  "second_ok b0 b1 =
     (is_cont b1 \<and>
      \<not> (unat b0 = 0xE0 \<and> unat b1 < 0xA0) \<and> \<not> (unat b0 = 0xED \<and> 0xA0 \<le> unat b1) \<and>
      \<not> (unat b0 = 0xF0 \<and> unat b1 < 0x90) \<and> \<not> (unat b0 = 0xF4 \<and> 0x90 \<le> unat b1))"

function utf8_decode_ignore :: "byte list \<Rightarrow> pystr" where
  "utf8_decode_ignore [] = []"
| "utf8_decode_ignore (b0 # bs) =
     (let c0 = unat b0 in
      if c0 < 0x80 then c0 # utf8_decode_ignore bs
      else if c0 < 0xC2 then utf8_decode_ignore bs
      else if c0 < 0xE0 then
        (case bs of
           [] \<Rightarrow> []
         | b1 # r1 \<Rightarrow>
             if is_cont b1
             then ((c0 - 0xC0) * 64 + (unat b1 - 0x80)) # utf8_decode_ignore r1
             else utf8_decode_ignore bs)
      else if c0 < 0xF0 then
        (case bs of
           [] \<Rightarrow> []
         | b1 # r1 \<Rightarrow>
             if \<not> second_ok b0 b1 then utf8_decode_ignore bs
             else (case r1 of
                     [] \<Rightarrow> []
                   | b2 # r2 \<Rightarrow>
                       if is_cont b2
                       then ((c0 - 0xE0) * 4096 + (unat b1 - 0x80) * 64 + (unat b2 - 0x80))
                              # utf8_decode_ignore r2
                       else utf8_decode_ignore r1))
      else if c0 < 0xF5 then
        (case bs of
           [] \<Rightarrow> []
         | b1 # r1 \<Rightarrow>
             if \<not> second_ok b0 b1 then utf8_decode_ignore bs
             else (case r1 of
                     [] \<Rightarrow> []
                   | b2 # r2 \<Rightarrow>
                       if \<not> is_cont b2 then utf8_decode_ignore r1
                       else (case r2 of
                               [] \<Rightarrow> []
                             | b3 # r3 \<Rightarrow>
                                 if is_cont b3
                                 then ((c0 - 0xF0) * 262144 + (unat b1 - 0x80) * 4096
                                        + (unat b2 - 0x80) * 64 + (unat b3 - 0x80))
                                        # utf8_decode_ignore r3
                                 else utf8_decode_ignore r2)))
      else utf8_decode_ignore bs)"
  by pat_completeness auto
termination
  by (relation "measure length") auto

declare utf8_decode_ignore.simps(2) [simp del]

definition ascii_decode_ignore :: "byte list \<Rightarrow> pystr" where
  \<comment> \<open>\<open>b.decode('ascii', errors='ignore')\<close>: bytes above 0x7F are dropped.\<close>
  "ascii_decode_ignore bs = map unat (filter (\<lambda>b. unat b < 0x80) bs)"

definition bytes_of :: "string \<Rightarrow> byte list" where
  \<comment> \<open>The bytes literal \<open>b'...'\<close> of an ASCII text.\<close>
  "bytes_of s = map of_char s"

definition is_space :: "nat \<Rightarrow> bool" where
  \<comment> \<open>The code points that \<open>str.strip()\<close> removes.\<close>
  "is_space c =
     ((9 \<le> c \<and> c \<le> 13) \<or> (28 \<le> c \<and> c \<le> 32) \<or> c = 0x85 \<or> c = 0xA0 \<or> c = 0x1680 \<or>
      (0x2000 \<le> c \<and> c \<le> 0x200A) \<or> c = 0x2028 \<or> c = 0x2029 \<or> c = 0x202F \<or>
      c = 0x205F \<or> c = 0x3000)"

definition strip :: "pystr \<Rightarrow> pystr" where
  \<comment> \<open>\<open>s.strip()\<close>\<close>
  "strip s = rev (dropWhile is_space (rev (dropWhile is_space s)))"

section \<open>The Remote ID record\<close>

record RemoteIDData =
  uas_id :: "pystr option"
  uas_id_type :: "pystr option"
  latitude :: "real option"
  longitude :: "real option"
  altitude_msl :: "real option"
  altitude_agl :: "real option"
  height :: "real option"
  speed :: "real option"
  direction :: "real option"
  vertical_speed :: "real option"
  operator_latitude :: "real option"
  operator_longitude :: "real option"
  operator_altitude :: "real option"
  operator_id :: "pystr option"
  timestamp :: "real option"
  status :: "pystr option"
  classification :: "pystr option"
  self_id_text :: "pystr option"
  auth_type :: "int option"
  auth_page_index :: "int option"
  auth_last_page_index :: "int option"
  auth_payload :: "byte list option"
  system_category :: "int option"
  system_eu_class :: "int option"
  system_operator_location_type :: "int option"

definition RemoteIDData_new :: RemoteIDData where
  \<comment> \<open>\<open>RemoteIDData()\<close>: every field has the default \<open>None\<close>.\<close>
  "RemoteIDData_new =
     \<lparr>uas_id = None, uas_id_type = None, latitude = None, longitude = None,
      altitude_msl = None, altitude_agl = None, height = None, speed = None,
      direction = None, vertical_speed = None, operator_latitude = None,
      operator_longitude = None, operator_altitude = None, operator_id = None,
      timestamp = None, status = None, classification = None, self_id_text = None,
      auth_type = None, auth_page_index = None, auth_last_page_index = None,
      auth_payload = None, system_category = None, system_eu_class = None,
      system_operator_location_type = None\<rparr>"

section \<open>The decoder (remote\_id\_decoder.py)\<close>


definition AUTHENTIC_PATTERNS :: "(pystr \<times> byte list list) list" where
  \<comment> \<open>The dictionary in its insertion order, which is the order of iteration.\<close>
  "AUTHENTIC_PATTERNS =
     [(str ''dji_remote_id'',
         [bytes_of ''DJI-RID-'', bytes_of ''MAVIC'', bytes_of ''MINI'', bytes_of ''AIR'',
          bytes_of ''FPV'']),
      (str ''astm_f3411'', [[0x0D, 0x00], [0x25, 0x00], [0x1A, 0x00]]),
      (str ''opendroneid'', [[0xFA, 0x0B, 0xBC]])]"

definition MSG_TYPE_BASIC_ID :: byte where "MSG_TYPE_BASIC_ID = 0x0"
definition MSG_TYPE_LOCATION :: byte where "MSG_TYPE_LOCATION = 0x1"
definition MSG_TYPE_AUTH :: byte where "MSG_TYPE_AUTH = 0x2"
definition MSG_TYPE_SELF_ID :: byte where "MSG_TYPE_SELF_ID = 0x3"
definition MSG_TYPE_SYSTEM :: byte where "MSG_TYPE_SYSTEM = 0x4"
definition MSG_TYPE_OPERATOR_ID :: byte where "MSG_TYPE_OPERATOR_ID = 0x5"

definition ID_TYPES_get :: "byte \<Rightarrow> pystr" where
  \<comment> \<open>\<open>self.ID_TYPES.get(id_type, "Unknown")\<close>\<close>
  "ID_TYPES_get id_type =
     (if id_type = 0 then str ''None''
      else if id_type = 1 then str ''Serial Number''
      else if id_type = 2 then str ''CAA Registration ID''
      else if id_type = 3 then str ''UTM UUID''
      else if id_type = 4 then str ''Specific Session ID''
      else str ''Unknown'')"

definition is_printable :: "nat \<Rightarrow> bool" where
  "is_printable c = (32 \<le> c \<and> c \<le> 126)"

definition decode_printable :: "byte list \<Rightarrow> pystr" where
  "decode_printable b =
     (let s = rstrip_nul (utf8_decode_ignore b);
          printable = filter is_printable s
      in if max 6 (length s div 2) \<le> length printable then printable
         else upper (bytes_hex b))"

datatype loop_ctl = Continue nat RemoteIDData | Break RemoteIDData

definition parse_basic_id :: "byte list \<Rightarrow> nat \<Rightarrow> RemoteIDData \<Rightarrow> error + loop_ctl" where
  "parse_basic_id data offset r =
     (let remaining = int (length data) - int offset in
      if 21 \<le> remaining then
        bindE (getitem data offset) (\<lambda>id_type.
        let uas_id_bytes = slice data (offset + 1) (offset + 21);
            r1 = r\<lparr>uas_id_type := Some (ID_TYPES_get id_type)\<rparr>;
            r2 = r1\<lparr>uas_id := Some (decode_printable uas_id_bytes)\<rparr>
        in bindE (if 23 \<le> remaining
                  then bindE (getitem data (offset + 21)) (\<lambda>b21.
                         if b21 = 0x00
                         then bindE (getitem data (offset + 22)) (\<lambda>b22. Inr (b22 = 0x00))
                         else Inr False)
                  else Inr False) (\<lambda>two_zero.
           Inr (Continue (offset + (if two_zero then 23 else 21)) r2)))
      else Inr (Continue offset r))"

definition parse_location :: "byte list \<Rightarrow> nat \<Rightarrow> RemoteIDData \<Rightarrow> error + loop_ctl" where
  "parse_location data offset r =
     (if offset + 23 \<le> length data then
        bindE (getitem data offset) (\<lambda>status_b.
        bindE (getitem data (offset + 1)) (\<lambda>direction_b.
        bindE (getitem data (offset + 2)) (\<lambda>speed_encoded.
        bindE (getitem data (offset + 3)) (\<lambda>vspeed_b.
        bindE (unpack_signed 1 [vspeed_b]) (\<lambda>vspeed_encoded.
        bindE (unpack_signed 4 (slice data (offset + 4) (offset + 8))) (\<lambda>lat_encoded.
        bindE (unpack_signed 4 (slice data (offset + 8) (offset + 12))) (\<lambda>lon_encoded.
        bindE (unpack_signed 2 (slice data (offset + 12) (offset + 14))) (\<lambda>alt_encoded.
        bindE (unpack_signed 2 (slice data (offset + 14) (offset + 16))) (\<lambda>height_encoded.
        let r1 = r\<lparr>status := Some (if status_b AND 0x0F \<noteq> 0 then str ''Airborne''
                                       else str ''Ground'')\<rparr>;
            r2 = r1\<lparr>direction := (if direction_b \<noteq> 0xFF
                                      then Some (real (unat direction_b)) else None)\<rparr>;
            r3 = r2\<lparr>speed := (if speed_encoded \<noteq> 0xFF
                                  then Some (real (unat speed_encoded) * 0.25) else None)\<rparr>;
            r4 = r3\<lparr>vertical_speed := (if vspeed_encoded \<noteq> 0x7F
                                           then Some (real_of_int vspeed_encoded * 0.5)
                                           else None)\<rparr>;
            r5 = (if lat_encoded \<noteq> 0
                  then r4\<lparr>latitude := Some (real_of_int lat_encoded * (1 / 10 ^ 7))\<rparr>
                  else r4);
            r6 = (if lon_encoded \<noteq> 0
                  then r5\<lparr>longitude := Some (real_of_int lon_encoded * (1 / 10 ^ 7))\<rparr>
                  else r5);
            r7 = (if alt_encoded \<noteq> - 1000
                  then r6\<lparr>altitude_msl := Some (real_of_int alt_encoded * 0.5)\<rparr>
                  else r6);
            r8 = (if height_encoded \<noteq> - 1000
                  then r7\<lparr>height := Some (real_of_int height_encoded * 0.5)\<rparr>
                  else r7)
        in Inr (Continue (offset + 23) r8))))))))))
      else Inr (Continue offset r))"

definition parse_auth :: "byte list \<Rightarrow> nat \<Rightarrow> RemoteIDData \<Rightarrow> error + loop_ctl" where
  "parse_auth data offset r =
     (if offset + 4 \<le> length data then
        bindE (getitem data offset) (\<lambda>a_type.
        bindE (getitem data (offset + 1)) (\<lambda>a_page.
        bindE (getitem data (offset + 2)) (\<lambda>a_last.
        bindE (getitem data (offset + 3)) (\<lambda>a_len.
        let offset' = offset + 4 in
        if offset' + unat a_len \<le> length data then
          let a_payload = slice data offset' (offset' + unat a_len);
              r1 = r\<lparr>auth_type := Some (uint a_type)\<rparr>;
              r2 = r1\<lparr>auth_page_index := Some (uint a_page)\<rparr>;
              r3 = r2\<lparr>auth_last_page_index := Some (uint a_last)\<rparr>;
              r4 = r3\<lparr>auth_payload := Some a_payload\<rparr>
          in Inr (Continue (offset' + unat a_len) r4)
        else Inr (Break r)))))
      else Inr (Continue offset r))"

definition parse_self_id :: "byte list \<Rightarrow> nat \<Rightarrow> RemoteIDData \<Rightarrow> error + loop_ctl" where
  "parse_self_id data offset r =
     (if offset + 24 \<le> length data then
        bindE (getitem data offset) (\<lambda>d_type.
        let text_bytes = slice data (offset + 1) (offset + 24)
        in Inr (Continue (offset + 24) (r\<lparr>self_id_text := Some (decode_printable text_bytes)\<rparr>)))
      else Inr (Break r))"

definition parse_system :: "byte list \<Rightarrow> nat \<Rightarrow> RemoteIDData \<Rightarrow> error + loop_ctl" where
  "parse_system data offset r =
     (if offset + 3 \<le> length data then
        bindE (getitem data offset) (\<lambda>op_loc.
        bindE (getitem data (offset + 1)) (\<lambda>eu_cls.
        bindE (getitem data (offset + 2)) (\<lambda>cat.
        let r1 = r\<lparr>system_operator_location_type := Some (uint op_loc)\<rparr>;
            r2 = r1\<lparr>system_eu_class := Some (uint eu_cls)\<rparr>;
            r3 = r2\<lparr>system_category := Some (uint cat)\<rparr>
        in Inr (Continue (offset + 3) r3))))
      else Inr (Break r))"

definition parse_operator_id :: "byte list \<Rightarrow> nat \<Rightarrow> RemoteIDData \<Rightarrow> error + loop_ctl" where
  "parse_operator_id data offset r =
     (if offset + 21 \<le> length data then
        bindE (getitem data offset) (\<lambda>op_id_type.
        let op_id_bytes = slice data (offset + 1) (offset + 21)
        in Inr (Continue (offset + 21) (r\<lparr>operator_id := Some (decode_printable op_id_bytes)\<rparr>)))
      else Inr (Continue offset r))"

definition parse_message :: "byte list \<Rightarrow> nat \<Rightarrow> RemoteIDData \<Rightarrow> error + loop_ctl" where
  \<comment> \<open>One pass through the body of the \<open>while\<close> loop, from the read of the type byte.\<close>
  "parse_message data offset0 r =
     bindE (getitem data offset0) (\<lambda>msg_type.
     let offset = offset0 + 1 in
     if msg_type = MSG_TYPE_BASIC_ID then parse_basic_id data offset r
     else if msg_type = MSG_TYPE_LOCATION then parse_location data offset r
     else if msg_type = MSG_TYPE_AUTH then parse_auth data offset r
     else if msg_type = MSG_TYPE_SELF_ID then parse_self_id data offset r
     else if msg_type = MSG_TYPE_SYSTEM then parse_system data offset r
     else if msg_type = MSG_TYPE_OPERATOR_ID then parse_operator_id data offset r
     else Inr (Continue (offset + 1) r))"

function parse_loop :: "byte list \<Rightarrow> nat \<Rightarrow> RemoteIDData \<Rightarrow> error + RemoteIDData" where
  "parse_loop data offset r =
     (if offset < length data then
        if length data \<le> offset + 1 then Inr r
        else (case parse_message data offset r of
                Inl e \<Rightarrow> Inl e
              | Inr (Break r') \<Rightarrow> Inr r'
              | Inr (Continue offset' r') \<Rightarrow> parse_loop data offset' r')
      else Inr r)"
  by pat_completeness auto
termination
proof (relation "measure (\<lambda>(data, offset, r). length data - offset)")
  show "wf (measure (\<lambda>(data, offset, r). length data - offset))"
    by simp
next
  fix data :: "byte list" and offset :: nat and r :: RemoteIDData and x2 offset' r'
  assume lt: "offset < length data"
    and step: "parse_message data offset r = Inr x2" "x2 = Continue offset' r'"
  have "offset < offset'"
    using step lt
    by (auto simp: parse_message_def parse_basic_id_def parse_location_def parse_auth_def
        parse_self_id_def parse_system_def parse_operator_id_def bindE_def Let_def
        split: sum.splits if_splits)
  with lt show "((data, offset', r'), (data, offset, r))
      \<in> measure (\<lambda>(data, offset, r). length data - offset)"
    by simp
qed

declare parse_loop.simps [simp del]

definition parse_remote_id_messages :: "byte list \<Rightarrow> RemoteIDData \<Rightarrow> error + RemoteIDData" where
  \<comment> \<open>The record is mutated in place by the source; here the updated record is returned.\<close>
  "parse_remote_id_messages data r = parse_loop data 0 r"

record pattern_info =
  pattern_type :: pystr
  pattern_hex :: pystr
  pattern_offset :: nat
  pattern_uas_id :: "pystr option"
  confidence :: pystr

definition try_pattern :: "pystr \<Rightarrow> byte list \<Rightarrow> byte list \<Rightarrow> pattern_info option" where
  \<comment> \<open>The body of the inner \<open>for\<close> loop of \<open>search_patterns_in_bytes\<close>: \<open>None\<close> when the
      pattern does not occur, otherwise the dictionary that is returned. The key
      \<open>'uas_id'\<close> is present only in the first \<open>return\<close>.\<close>
  "try_pattern ptype pat data =
     (case find_sub data pat of
        None \<Rightarrow> None
      | Some off \<Rightarrow>
          let remaining = drop off data;
              plain = \<lparr>pattern_type = ptype, pattern_hex = bytes_hex pat, pattern_offset = off,
                       pattern_uas_id = None, confidence = str ''pattern_match''\<rparr>
          in if ptype = str ''dji_remote_id'' \<and> 20 \<le> length remaining then
               (case find_sub remaining [0x00] of
                  None \<Rightarrow> Some plain
                | Some id_end \<Rightarrow>
                    if length pat < id_end
                    then Some (plain\<lparr>pattern_uas_id :=
                                 Some (ascii_decode_ignore (take id_end remaining))\<rparr>)
                    else Some plain)
             else Some plain)"

fun search_patterns :: "pystr \<Rightarrow> byte list list \<Rightarrow> byte list \<Rightarrow> pattern_info option" where
  "search_patterns ptype [] data = None"
| "search_patterns ptype (pat # pats) data =
     (case try_pattern ptype pat data of
        Some info \<Rightarrow> Some info
      | None \<Rightarrow> search_patterns ptype pats data)"

fun search_pattern_types :: "(pystr \<times> byte list list) list \<Rightarrow> byte list \<Rightarrow> pattern_info option" where
  "search_pattern_types [] data = None"
| "search_pattern_types ((ptype, pats) # rest) data =
     (case search_patterns ptype pats data of
        Some info \<Rightarrow> Some info
      | None \<Rightarrow> search_pattern_types rest data)"

definition search_patterns_in_bytes :: "byte list \<Rightarrow> pattern_info option" where
  "search_patterns_in_bytes data = search_pattern_types AUTHENTIC_PATTERNS data"

definition is_valid_id :: "pystr option \<Rightarrow> bool" where
  "is_valid_id u =
     (case u of
        None \<Rightarrow> False
      | Some s \<Rightarrow>
          if s = [] then False
          else let cleaned = strip (filter (\<lambda>c. c \<noteq> 45) (filter (\<lambda>c. c \<noteq> 32)
                               (filter (\<lambda>c. c \<noteq> 48) (filter (\<lambda>c. c \<noteq> 0) s))))
               in 3 \<le> length cleaned)"

definition truthy_float :: "real option \<Rightarrow> bool" where
  \<comment> \<open>The truth value of an optional float: \<open>None\<close> and \<open>0.0\<close> are false.\<close>
  "truthy_float x = (case x of None \<Rightarrow> False | Some v \<Rightarrow> v \<noteq> 0)"


definition decode_from_raw_bytes :: "real \<Rightarrow> byte list \<Rightarrow> error + RemoteIDData option" where
  \<comment> \<open>\<open>now\<close> is the reading of the clock, \<open>datetime.now().timestamp()\<close>. The result is
      \<open>Inl\<close> for an exception, \<open>Inr None\<close> for the value \<open>None\<close>.\<close>
  "decode_from_raw_bytes now raw_data =
     (let remote_id = RemoteIDData_new\<lparr>timestamp := Some now\<rparr> in
      bindE (parse_remote_id_messages raw_data remote_id) (\<lambda>remote_id.
        if \<not> is_valid_id (uas_id remote_id) \<and> \<not> truthy_float (latitude remote_id) then
          (case search_patterns_in_bytes raw_data of
             Some info \<Rightarrow>
               let r1 = remote_id\<lparr>uas_id := Some (case pattern_uas_id info of
                                                     Some u \<Rightarrow> u
                                                   | None \<Rightarrow> str ''PATTERN_'' @ pattern_type info)\<rparr>;
                   r2 = r1\<lparr>uas_id_type := Some (str ''Pattern Detection ('' @ pattern_type info
                                                   @ str '')'')\<rparr>
               in Inr (Some r2)
           | None \<Rightarrow> Inr (Some remote_id))
        else Inr (Some remote_id)))"

subsection \<open>Beacon frames\<close>














section \<open>The callers of the decoder (main\_gnuradio\_wifi.py, ble\_scanner.py)\<close>

text \<open>
  Every call of the decoder reads the clock. \<open>clock k\<close> is the reading of the \<open>k\<close>-th
  call made while one payload is handled.
\<close>

definition is_plausible_ascii :: "pystr \<Rightarrow> bool" where
  "is_plausible_ascii s =
     (if s = [] then False
      else if length s < 6 \<or> 32 < length s then False
      else list_all is_printable s)"

definition or_empty :: "pystr option \<Rightarrow> pystr" where
  \<comment> \<open>\<open>x or ""\<close>\<close>
  "or_empty x = (case x of None \<Rightarrow> [] | Some s \<Rightarrow> s)"

definition has_location :: "RemoteIDData \<Rightarrow> bool" where
  "has_location rid = (latitude rid \<noteq> None \<and> longitude rid \<noteq> None)"

definition allowed_types :: "pystr list" where
  "allowed_types =
     [str ''serial number'', str ''caa registration id'', str ''utm uuid'',
      str ''specific session id'']"

definition id_ok :: "RemoteIDData \<Rightarrow> bool" where
  \<comment> \<open>The test of the BLE scanner, and of the loop of the Wi-Fi scan.\<close>
  "id_ok rid =
     (lower (or_empty (uas_id_type rid)) \<in> set allowed_types
      \<and> is_plausible_ascii (or_empty (uas_id rid)))"

definition id_ok_first :: "RemoteIDData \<Rightarrow> bool" where
  \<comment> \<open>The test of the first attempt of the Wi-Fi scan, which also takes a pattern match.\<close>
  "id_ok_first rid =
     (let uas_id_type' = lower (or_empty (uas_id_type rid));
          is_pattern_detection = contains uas_id_type' (str ''pattern detection'')
      in (uas_id_type' \<in> set (allowed_types @ [str ''pattern detection''])
          \<and> is_plausible_ascii (or_empty (uas_id rid)))
         \<or> is_pattern_detection)"

definition range_stop :: "nat \<Rightarrow> nat \<Rightarrow> nat" where
  \<comment> \<open>The bound of \<open>range(max(0, n - w))\<close>.\<close>
  "range_stop n w = nat (max 0 (int n - int w))"

function suffix_scan :: "(nat \<Rightarrow> real) \<Rightarrow> byte list \<Rightarrow> nat \<Rightarrow> nat \<Rightarrow> RemoteIDData option" where
  \<comment> \<open>The loop \<open>for i in range(stop)\<close> of both scans, from the index \<open>i\<close> on: the body
      is the same text in the two source functions.\<close>
  "suffix_scan clock data stop i =
     (if i < stop then
        (case decode_from_raw_bytes (clock (Suc i)) (drop i data) of
           Inr (Some rid) \<Rightarrow>
             if id_ok rid \<or> has_location rid then Some rid
             else suffix_scan clock data stop (Suc i)
         | Inr None \<Rightarrow> suffix_scan clock data stop (Suc i)
         | Inl e \<Rightarrow> suffix_scan clock data stop (Suc i))
      else None)"
  by pat_completeness auto
termination
  by (relation "measure (\<lambda>(clock, data, stop, i). stop - i)") auto

declare suffix_scan.simps [simp del]

definition try_decode_from_bytes :: "(nat \<Rightarrow> real) \<Rightarrow> byte list \<Rightarrow> RemoteIDData option" where
  "try_decode_from_bytes clock data =
     (case (case decode_from_raw_bytes (clock 0) data of
              Inr (Some rid) \<Rightarrow>
                if id_ok_first rid \<or> has_location rid then Some rid else None
            | Inr None \<Rightarrow> None
            | Inl e \<Rightarrow> None) of
        Some rid \<Rightarrow> Some rid
      | None \<Rightarrow> suffix_scan clock data (range_stop (length data) 128) 0)"

definition try_decode :: "(nat \<Rightarrow> real) \<Rightarrow> byte list \<Rightarrow> RemoteIDData option" where
  "try_decode clock data =
     (case (case decode_from_raw_bytes (clock 0) data of
              Inr (Some rid) \<Rightarrow>
                if id_ok rid \<or> has_location rid then Some rid else None
            | Inr None \<Rightarrow> None
            | Inl e \<Rightarrow> None) of
        Some rid \<Rightarrow> Some rid
      | None \<Rightarrow> suffix_scan clock data (range_stop (length data) 64) 0)"



section \<open>Threat assessment (data\_fusion.py)\<close>



















section \<open>The channel plan (main of main\_gnuradio\_wifi.py)\<close>

definition is_digit :: "nat \<Rightarrow> bool" where
  "is_digit c = (48 \<le> c \<and> c \<le> 57)"

fun split_on :: "nat \<Rightarrow> pystr \<Rightarrow> pystr list" where
  \<comment> \<open>\<open>s.split(sep)\<close> for a separator of one character.\<close>
  "split_on sep [] = [[]]"
| "split_on sep (c # cs) =
     (if c = sep then [] # split_on sep cs
      else (case split_on sep cs of
              [] \<Rightarrow> [[c]]
            | w # ws \<Rightarrow> (c # w) # ws))"

definition split_first :: "nat \<Rightarrow> pystr \<Rightarrow> pystr \<times> pystr" where
  \<comment> \<open>\<open>a, b = s.split(sep, 1)\<close> for a text that holds the separator.\<close>
  "split_first sep s = (takeWhile (\<lambda>c. c \<noteq> sep) s, drop 1 (dropWhile (\<lambda>c. c \<noteq> sep) s))"

definition digits_value :: "pystr \<Rightarrow> int" where
  "digits_value ds = foldl (\<lambda>acc c. 10 * acc + (int c - 48)) 0 ds"

definition py_int :: "pystr \<Rightarrow> error + int" where
  \<comment> \<open>\<open>int(s)\<close> on a text: blanks around, a sign, then decimal digits in groups that a
      single underscore separates; anything else is a ValueError. Decimal digits outside
      ASCII, which Python reads too, are not modelled.\<close>
  "py_int s =
     (let t = strip s;
          neg = (t \<noteq> [] \<and> hd t = 45);
          body = (if t \<noteq> [] \<and> (hd t = 45 \<or> hd t = 43) then tl t else t);
          groups = split_on 95 body
      in if list_all (\<lambda>g. g \<noteq> [] \<and> list_all is_digit g) groups
         then Inr ((if neg then - 1 else 1) * digits_value (concat groups))
         else Inl ValueError)"

definition ch_to_freq_2g :: "int \<Rightarrow> real" where
  "ch_to_freq_2g ch = 2412000000 + 5000000 * real_of_int (ch - 1)"

definition ch_to_freq_5g :: "int \<Rightarrow> real" where
  "ch_to_freq_5g ch = 5000000000 + 5000000 * real_of_int ch"

definition add_range_2g :: "int \<Rightarrow> int \<Rightarrow> real list \<Rightarrow> real list" where
  "add_range_2g s e channels_list =
     channels_list @ map ch_to_freq_2g (filter (\<lambda>ch. 1 \<le> ch \<and> ch \<le> 13) [s..e])"

definition add_list_5g :: "int list \<Rightarrow> real list \<Rightarrow> real list" where
  "add_list_5g lst channels_list = channels_list @ map ch_to_freq_5g lst"

definition common_5g :: "int list" where
  "common_5g = [36, 40, 44, 48, 149, 153, 157, 161]"

fun add_tokens :: "(int \<Rightarrow> real) \<Rightarrow> pystr list \<Rightarrow> real list \<Rightarrow> error + real list" where
  \<comment> \<open>\<open>for tok in rng.split('/'): if tok: channels_list.append(f(int(tok)))\<close>\<close>
  "add_tokens f [] channels_list = Inr channels_list"
| "add_tokens f (tok # toks) channels_list =
     (if tok \<noteq> []
      then (case py_int tok of
              Inl e \<Rightarrow> Inl e
            | Inr ch \<Rightarrow> add_tokens f toks (channels_list @ [f ch]))
      else add_tokens f toks channels_list)"

definition add_part :: "pystr \<Rightarrow> real list \<Rightarrow> error + real list" where
  \<comment> \<open>The body of \<open>for p in parts\<close>.\<close>
  "add_part p channels_list =
     (if is_prefix (str ''2g:'') p then
        let rng = drop 3 p in
        if 45 \<in> set rng then
          let (a, b) = split_first 45 rng in
          bindE (py_int a) (\<lambda>a'. bindE (py_int b) (\<lambda>b'.
            Inr (add_range_2g a' b' channels_list)))
        else add_tokens ch_to_freq_2g (split_on 47 rng) channels_list
      else if is_prefix (str ''5g:'') p then
        let rng = drop 3 p in
        if rng = str ''common'' then Inr (add_list_5g common_5g channels_list)
        else if 45 \<in> set rng then
          let (a, b) = split_first 45 rng in
          bindE (py_int a) (\<lambda>a'. bindE (py_int b) (\<lambda>b'.
            Inr (add_list_5g (map (\<lambda>k. a' + 4 * k) [0..(b' - a') div 4]) channels_list)))
        else add_tokens ch_to_freq_5g (split_on 47 rng) channels_list
      else bindE (py_int p) (\<lambda>ch. Inr (channels_list @ [ch_to_freq_2g ch])))"

fun add_parts :: "pystr list \<Rightarrow> real list \<Rightarrow> error + real list" where
  "add_parts [] channels_list = Inr channels_list"
| "add_parts (p # ps) channels_list =
     (case add_part p channels_list of
        Inl e \<Rightarrow> Inl e
      | Inr channels_list' \<Rightarrow> add_parts ps channels_list')"

definition scan_channels :: "pystr \<Rightarrow> real list" where
  \<comment> \<open>The list \<open>channels_list\<close> that \<open>main\<close> builds from \<open>--scan-channels\<close>.\<close>
  "scan_channels arg =
     (let channels_arg = lower (strip arg) in
      if channels_arg = [] then []
      else
        (case (if channels_arg = str ''all''
               then Inr (add_list_5g common_5g (add_range_2g 1 13 []))
               else let parts = filter (\<lambda>p. p \<noteq> []) (map strip (split_on 44 channels_arg))
                    in bindE (add_parts parts []) (\<lambda>l. Inr (sort (remdups l)))) of
           Inr l \<Rightarrow> l
         | Inl e \<Rightarrow> [2412000000, 2437000000, 2462000000]))"

section \<open>The band-pass step (preprocessing.py)\<close>

text \<open>
  The design and the application of the filter are SciPy's: \<open>sosfilt_butter order low high xs\<close>
  stands for \<open>signal.sosfilt(signal.butter(order, [low, high], btype='band', output='sos'), xs)\<close>
  and is a parameter, with \<open>Inl\<close> where SciPy raises. The result of \<open>bandpass_filter\<close>
  carries, beside the samples, whether the warning was logged.
\<close>

record SignalPreprocessor =
  sample_rate :: real

definition py_div :: "real \<Rightarrow> real \<Rightarrow> error + real" where
  \<comment> \<open>The division of two Python floats.\<close>
  "py_div a b = (if b = 0 then Inl ZeroDivisionError else Inr (a / b))"

definition bandpass_filter ::
    "(nat \<Rightarrow> real \<Rightarrow> real \<Rightarrow> real list \<Rightarrow> error + real list) \<Rightarrow> SignalPreprocessor
      \<Rightarrow> complex list \<Rightarrow> real \<Rightarrow> real \<Rightarrow> nat \<Rightarrow> error + (bool \<times> complex list)" where
  "bandpass_filter sosfilt_butter self iq_samples low_freq high_freq order =
     (let nyquist = sample_rate self / 2 in
      bindE (py_div low_freq nyquist) (\<lambda>low.
      bindE (py_div high_freq nyquist) (\<lambda>high.
      if low \<le> 0 \<or> 1 \<le> high then Inr (True, iq_samples)
      else
        bindE (sosfilt_butter order low high (map Re iq_samples)) (\<lambda>i_filtered.
        bindE (sosfilt_butter order low high (map Im iq_samples)) (\<lambda>q_filtered.
        Inr (False, map2 Complex i_filtered q_filtered))))))"

section \<open>Inputs and predicates of the claims\<close>

definition scenario_B :: "byte list" where
  \<comment> \<open>The Location/Vector message of Scenario B: the type byte, status 0x01, direction 87,
      speed 49, vertical speed 5, latitude 123585000, longitude -15352000, altitude 241
      and height 90 in little-endian order as \<open>struct\<close> reads them, and five zero bytes.\<close>
  "scenario_B =
     [0x01, 0x01, 0x57, 0x31, 0x05, 0xE8, 0xC1, 0x5D, 0x07, 0x40, 0xBF, 0x15, 0xFF,
      0xF1, 0x00, 0x5A, 0x00, 0x00, 0x00, 0x00, 0x00, 0x00]"

definition s16_le :: "byte \<Rightarrow> byte \<Rightarrow> int" where
  \<comment> \<open>The two's-complement value of a 16-bit field, least significant byte first.\<close>
  "s16_le lo hi = sint (word_of_int (uint lo + 256 * uint hi) :: 16 word)"

definition zero_filter :: "nat \<Rightarrow> real \<Rightarrow> real \<Rightarrow> real list \<Rightarrow> error + real list" where
  \<comment> \<open>A filter for the concrete runs: it answers silence of the same length.\<close>
  "zero_filter order low high xs = Inr (map (\<lambda>x. 0) xs)"






definition two_locations :: "byte list" where
  \<comment> \<open>Two Location/Vector messages of 24 bytes: the altitude field of the first is
      241, that of the second is the sentinel -1000 (bytes 18 FC).\<close>
  "two_locations =
     [0x01, 0x01, 0x57, 0x31, 0x05, 0xE8, 0xC1, 0x5D, 0x07, 0x40, 0xBF, 0x15, 0xFF,
      0xF1, 0x00, 0x5A, 0x00, 0x00, 0x00, 0x00, 0x00, 0x00, 0x00, 0x00,
      0x01, 0x01, 0x57, 0x31, 0x05, 0xE8, 0xC1, 0x5D, 0x07, 0x40, 0xBF, 0x15, 0xFF,
      0x18, 0xFC, 0x5A, 0x00, 0x00, 0x00, 0x00, 0x00, 0x00, 0x00, 0x00]"

definition id_frame :: "nat \<Rightarrow> byte list" where
  \<comment> \<open>A payload for the scans: one byte, then a Basic-ID message with a serial number,
      then \<open>k\<close> bytes 0xFF.\<close>
  "id_frame k = [0x00, 0x00, 0x01] @ bytes_of ''DJI-TEST-00000000001'' @ replicate k 0xFF"

definition id_frame_tail :: "nat \<Rightarrow> byte list" where
  \<comment> \<open>The same payload without its first byte.\<close>
  "id_frame_tail k = [0x00, 0x01] @ bytes_of ''DJI-TEST-00000000001'' @ replicate k 0xFF"

definition id_record :: "real \<Rightarrow> RemoteIDData" where
  "id_record now = RemoteIDData_new\<lparr>uas_id := Some (str ''DJI-TEST-00000000001''),
      uas_id_type := Some (str ''Serial Number''), timestamp := Some now\<rparr>"

definition none_record :: "real \<Rightarrow> RemoteIDData" where
  "none_record now = RemoteIDData_new\<lparr>uas_id := Some (str ''DJI-TEST-0000000000''),
      uas_id_type := Some (str ''None''), timestamp := Some now\<rparr>"

definition accepted_at :: "(nat \<Rightarrow> real) \<Rightarrow> byte list \<Rightarrow> nat \<Rightarrow> RemoteIDData option" where
  \<comment> \<open>The record of the suffix that starts at \<open>j\<close>, if the loop of the scans accepts it.\<close>
  "accepted_at clock data j =
     (case decode_from_raw_bytes (clock (Suc j)) (drop j data) of
        Inr (Some rid) \<Rightarrow> if id_ok rid \<or> has_location rid then Some rid else None
      | Inr None \<Rightarrow> None
      | Inl e \<Rightarrow> None)"












section \<open>Auxiliary notions of the proofs\<close>

definition raw_signed :: "nat \<Rightarrow> byte list \<Rightarrow> int" where
  \<comment> \<open>The value \<open>struct.unpack\<close> reads from a field of the right length.\<close>
  "raw_signed n bs = (case unpack_signed n bs of Inr v \<Rightarrow> v | Inl e \<Rightarrow> 0)"

definition location_fields :: "byte list \<Rightarrow> nat \<Rightarrow> RemoteIDData \<Rightarrow> RemoteIDData" where
  \<comment> \<open>The assignments of the Location/Vector branch, as one update of the record.\<close>
  "location_fields data offset r =
     (let lat = raw_signed 4 (slice data (offset + 4) (offset + 8));
          lon = raw_signed 4 (slice data (offset + 8) (offset + 12));
          alt = raw_signed 2 (slice data (offset + 12) (offset + 14));
          hgt = raw_signed 2 (slice data (offset + 14) (offset + 16));
          vsp = sint (data ! (offset + 3))
      in r\<lparr>status := Some (if data ! offset AND 0x0F \<noteq> 0 then str ''Airborne''
                             else str ''Ground''),
           direction := (if data ! (offset + 1) \<noteq> 0xFF
                         then Some (real (unat (data ! (offset + 1)))) else None),
           speed := (if data ! (offset + 2) \<noteq> 0xFF
                     then Some (real (unat (data ! (offset + 2))) * 0.25) else None),
           vertical_speed := (if vsp \<noteq> 0x7F then Some (real_of_int vsp * 0.5) else None),
           latitude := (if lat \<noteq> 0 then Some (real_of_int lat * (1 / 10 ^ 7))
                        else latitude r),
           longitude := (if lon \<noteq> 0 then Some (real_of_int lon * (1 / 10 ^ 7))
                         else longitude r),
           altitude_msl := (if alt \<noteq> - 1000 then Some (real_of_int alt * 0.5)
                            else altitude_msl r),
           height := (if hgt \<noteq> - 1000 then Some (real_of_int hgt * 0.5) else height r)\<rparr>)"


fun ctl_map :: "(RemoteIDData \<Rightarrow> RemoteIDData) \<Rightarrow> loop_ctl \<Rightarrow> loop_ctl" where
  "ctl_map f (Continue offset r) = Continue offset (f r)"
| "ctl_map f (Break r) = Break (f r)"

section \<open>The decoder never raises\<close>

declare of_nat_unat [simp del] of_int_uint [simp del] of_int_sint [simp del]

lemma bindE_Inr [simp]: "bindE (Inr v) f = f v"
  by (simp add: bindE_def)

lemma bindE_Inl [simp]: "bindE (Inl e) f = Inl e"
  by (simp add: bindE_def)

lemma getitem_in [simp]: "i < length data \<Longrightarrow> getitem data i = Inr (data ! i)"
  by (simp add: getitem_def)

lemma length_slice [simp]: "b \<le> length data \<Longrightarrow> length (slice data a b) = b - a"
  by (simp add: slice_def)

lemma unpack_signed_ok: "length bs = n \<Longrightarrow> \<exists>v. unpack_signed n bs = Inr v"
  by (simp add: unpack_signed_def Let_def)

lemma parse_basic_id_total:
  "offset \<le> length data \<Longrightarrow> \<exists>c. parse_basic_id data offset r = Inr c"
  by (auto simp: parse_basic_id_def Let_def)

lemma parse_location_total: "\<exists>c. parse_location data offset r = Inr c"
proof (cases "offset + 23 \<le> length data")
  case True
  then have "length (slice data (offset + 4) (offset + 8)) = 4"
    "length (slice data (offset + 8) (offset + 12)) = 4"
    "length (slice data (offset + 12) (offset + 14)) = 2"
    "length (slice data (offset + 14) (offset + 16)) = 2"
    by simp_all
  then obtain a b c d where
    "unpack_signed 4 (slice data (offset + 4) (offset + 8)) = Inr a"
    "unpack_signed 4 (slice data (offset + 8) (offset + 12)) = Inr b"
    "unpack_signed 2 (slice data (offset + 12) (offset + 14)) = Inr c"
    "unpack_signed 2 (slice data (offset + 14) (offset + 16)) = Inr d"
    using unpack_signed_ok by metis
  moreover obtain e where "\<And>x. unpack_signed 1 [x] = Inr (e x)"
    by (simp add: unpack_signed_def Let_def)
  ultimately show ?thesis using True
    by (simp add: parse_location_def Let_def)
next
  case False
  then show ?thesis by (simp add: parse_location_def)
qed

lemma parse_auth_total: "\<exists>c. parse_auth data offset r = Inr c"
  by (simp add: parse_auth_def Let_def)

lemma parse_self_id_total: "\<exists>c. parse_self_id data offset r = Inr c"
  by (simp add: parse_self_id_def Let_def)

lemma parse_system_total: "\<exists>c. parse_system data offset r = Inr c"
  by (simp add: parse_system_def Let_def)

lemma parse_operator_id_total: "\<exists>c. parse_operator_id data offset r = Inr c"
  by (simp add: parse_operator_id_def Let_def)

lemma parse_message_total:
  "offset < length data \<Longrightarrow> \<exists>c. parse_message data offset r = Inr c"
  using parse_basic_id_total [of "offset + 1" data r] parse_location_total parse_auth_total
    parse_self_id_total parse_system_total parse_operator_id_total
  by (simp add: parse_message_def Let_def)

lemma parse_loop_total: "\<exists>r'. parse_loop data offset r = Inr r'"
proof (induction data offset r rule: parse_loop.induct)
  case (1 data offset r)
  show ?case
  proof (cases "offset < length data \<and> \<not> length data \<le> offset + 1")
    case False
    then show ?thesis by (auto simp: parse_loop.simps [of data offset r])
  next
    case True
    then obtain c where c: "parse_message data offset r = Inr c"
      using parse_message_total by blast
    show ?thesis
    proof (cases c)
      case (Continue offset' r')
      with 1 [OF _ _ c Continue] True c show ?thesis
        by (simp add: parse_loop.simps [of data offset r])
    next
      case (Break r')
      with True c show ?thesis
        by (simp add: parse_loop.simps [of data offset r])
    qed
  qed
qed

lemma decode_from_raw_bytes_total: "\<exists>r. decode_from_raw_bytes now data = Inr (Some r)"
proof -
  obtain r' where "parse_loop data 0 (RemoteIDData_new\<lparr>timestamp := Some now\<rparr>) = Inr r'"
    using parse_loop_total by blast
  then show ?thesis
    by (simp add: decode_from_raw_bytes_def parse_remote_id_messages_def Let_def
        split: option.split)
qed

lemma decode_empty:
  "decode_from_raw_bytes now [] = Inr (Some (RemoteIDData_new\<lparr>timestamp := Some now\<rparr>))"
  by (simp add: decode_from_raw_bytes_def parse_remote_id_messages_def
      parse_loop.simps [of "[]"] Let_def is_valid_id_def truthy_float_def RemoteIDData_new_def
      search_patterns_in_bytes_def AUTHENTIC_PATTERNS_def try_pattern_def find_sub_def
      bytes_of_def)

lemma filter_rejects_new:
  "\<not> (id_ok (RemoteIDData_new\<lparr>timestamp := Some t\<rparr>)
      \<or> has_location (RemoteIDData_new\<lparr>timestamp := Some t\<rparr>))"
  "\<not> (id_ok_first (RemoteIDData_new\<lparr>timestamp := Some t\<rparr>)
      \<or> has_location (RemoteIDData_new\<lparr>timestamp := Some t\<rparr>))"
  by (simp_all add: id_ok_def id_ok_first_def has_location_def RemoteIDData_new_def or_empty_def
      lower_def allowed_types_def str_def is_plausible_ascii_def contains_def find_sub_def)

section \<open>The channel plan of Scenario F, step by step\<close>

lemma plan_F_lower: "lower (strip (str ''2g:1-3,5g:36/40'')) = str ''2g:1-3,5g:36/40''"
  by (simp add: lower_def strip_def str_def is_space_def lower_char_def)

lemma plan_F_parts:
  "filter (\<lambda>p. p \<noteq> []) (map strip (split_on 44 (str ''2g:1-3,5g:36/40'')))
     = [str ''2g:1-3'', str ''5g:36/40'']"
  by (simp add: strip_def str_def is_space_def)

lemma plan_F_ints:
  "py_int (str ''1'') = Inr 1" "py_int (str ''3'') = Inr 3"
  "py_int (str ''36'') = Inr 36" "py_int (str ''40'') = Inr 40"
  by (simp_all add: py_int_def strip_def str_def is_space_def is_digit_def digits_value_def)

lemma plan_F_2g: "add_part (str ''2g:1-3'') [] = Inr [2412000000, 2417000000, 2422000000]"
proof -
  have a: "is_prefix (str ''2g:'') (str ''2g:1-3'')" by (simp add: str_def)
  have b: "drop 3 (str ''2g:1-3'') = str ''1-3''" by (simp add: str_def)
  have c: "45 \<in> set (str ''1-3'')" by (simp add: str_def)
  have d: "split_first 45 (str ''1-3'') = (str ''1'', str ''3'')"
    by (simp add: split_first_def str_def)
  have e: "[1..3] = [1::int, 2, 3]" by (simp add: upto.simps)
  show ?thesis
    by (simp add: add_part_def a b c d plan_F_ints add_range_2g_def e ch_to_freq_2g_def)
qed

lemma plan_F_5g: "add_part (str ''5g:36/40'') xs = Inr (xs @ [5180000000, 5200000000])"
proof -
  have a: "\<not> is_prefix (str ''2g:'') (str ''5g:36/40'')"
    "is_prefix (str ''5g:'') (str ''5g:36/40'')" by (simp_all add: str_def)
  have b: "drop 3 (str ''5g:36/40'') = str ''36/40''" by (simp add: str_def)
  have c: "45 \<notin> set (str ''36/40'')" "str ''36/40'' \<noteq> str ''common''"
    by (simp_all add: str_def)
  have d: "split_on 47 (str ''36/40'') = [str ''36'', str ''40'']" by (simp add: str_def)
  have e: "str ''36'' \<noteq> []" "str ''40'' \<noteq> []" by (simp_all add: str_def)
  show ?thesis
    by (simp add: add_part_def a b c d e plan_F_ints ch_to_freq_5g_def)
qed

section \<open>Signed fields\<close>

lemma uint_byte_bounds: "0 \<le> uint (b :: byte) \<and> uint b < 256"
  using uint_lt2p [of b] by simp

lemma signed_fold:
  fixes u n :: int
  assumes "0 \<le> u" "u < 2 * n"
  shows "(u + n) mod (2 * n) - n = (if n \<le> u then u - 2 * n else u)"
proof (cases "n \<le> u")
  case True
  have "(u + n) mod (2 * n) = ((u - n) + 2 * n) mod (2 * n)" by (simp add: algebra_simps)
  also have "\<dots> = (u - n) mod (2 * n)" by (simp only: mod_add_self2)
  also have "\<dots> = u - n" using True assms by simp
  finally show ?thesis using True by simp
next
  case False
  then have "(u + n) mod (2 * n) = u + n"
    using assms by simp
  then show ?thesis using False by simp
qed

lemma unpack_signed_1: "unpack_signed 1 [b] = Inr (sint b)"
proof -
  have "sint b = sint (word_of_int (uint b) :: byte)" by (simp add: word_of_int_uint)
  also have "\<dots> = (uint b + 128) mod 256 - 128"
    by (simp only: int_word_sint) simp
  finally have "sint b = (if 128 \<le> uint b then uint b - 256 else uint b)"
    using uint_byte_bounds [of b] signed_fold [of "uint b" 128] by simp
  then show ?thesis
    by (simp add: unpack_signed_def le_uint_def Let_def)
qed

lemma unpack_signed_2: "unpack_signed 2 [lo, hi] = Inr (s16_le lo hi)"
proof -
  let ?u = "uint lo + 256 * uint hi"
  have b: "0 \<le> ?u" "?u < 65536"
    using uint_byte_bounds [of lo] uint_byte_bounds [of hi] by auto
  have "s16_le lo hi = (?u + 32768) mod 65536 - 32768"
    unfolding s16_le_def by (simp only: int_word_sint) simp
  then have "s16_le lo hi = (if 32768 \<le> ?u then ?u - 65536 else ?u)"
    using b signed_fold [of ?u 32768] by simp
  then show ?thesis
    by (simp add: unpack_signed_def le_uint_def Let_def)
qed

section \<open>The Location/Vector branch\<close>

lemma parse_location_eq:
  assumes "offset + 23 \<le> length data"
  shows "parse_location data offset r
           = Inr (Continue (offset + 23) (location_fields data offset r))"
proof -
  have len: "length (slice data (offset + 4) (offset + 8)) = 4"
    "length (slice data (offset + 8) (offset + 12)) = 4"
    "length (slice data (offset + 12) (offset + 14)) = 2"
    "length (slice data (offset + 14) (offset + 16)) = 2"
    using assms by simp_all
  have u: "unpack_signed 4 (slice data (offset + 4) (offset + 8))
             = Inr (raw_signed 4 (slice data (offset + 4) (offset + 8)))"
    "unpack_signed 4 (slice data (offset + 8) (offset + 12))
             = Inr (raw_signed 4 (slice data (offset + 8) (offset + 12)))"
    "unpack_signed 2 (slice data (offset + 12) (offset + 14))
             = Inr (raw_signed 2 (slice data (offset + 12) (offset + 14)))"
    "unpack_signed 2 (slice data (offset + 14) (offset + 16))
             = Inr (raw_signed 2 (slice data (offset + 14) (offset + 16)))"
    using len by (simp_all add: raw_signed_def unpack_signed_def Let_def)
  have g: "getitem data offset = Inr (data ! offset)"
    "getitem data (offset + 1) = Inr (data ! (offset + 1))"
    "getitem data (offset + 2) = Inr (data ! (offset + 2))"
    "getitem data (offset + 3) = Inr (data ! (offset + 3))"
    using assms by simp_all
  show ?thesis
    unfolding parse_location_def location_fields_def
    by (simp only: assms if_True g u unpack_signed_1 bindE_Inr Let_def)
       (cases "raw_signed 4 (slice data (offset + 4) (offset + 8)) = 0";
        cases "raw_signed 4 (slice data (offset + 8) (offset + 12)) = 0";
        cases "raw_signed 2 (slice data (offset + 12) (offset + 14)) = - 1000";
        cases "raw_signed 2 (slice data (offset + 14) (offset + 16)) = - 1000";
        simp)
qed

lemma parse_location_skip:
  "\<not> offset + 23 \<le> length data \<Longrightarrow> parse_location data offset r = Inr (Continue offset r)"
  by (simp add: parse_location_def)

lemma unat_255: "unat (b::byte) = 255 \<Longrightarrow> b = 0xFF"
proof -
  assume "unat b = 255"
  then have "(word_of_nat (unat b) :: byte) = word_of_nat 255" by (rule arg_cong)
  then show ?thesis by (simp add: of_nat_unat)
qed

lemma unat_lt_256: "unat (b::byte) < 256"
  using unsigned_less [of b, where ?'a = nat] by simp

lemma sint_byte_bounds: "- 128 \<le> sint (b::byte) \<and> sint b \<le> 127"
  using sint_ge [of b] sint_lt [of b] by simp

lemma decode_one_location_message:
  fixes r :: RemoteIDData
  assumes m: "m = [0x01, st, dir, spd, vs, l0, l1, l2, l3, g0, g1, g2, g3, alo, ahi, hlo, hhi,
                   p0, p1, p2, p3, p4, p5, p6]"
  shows "\<exists>r'. parse_loop m 0 r = Inr r'
     \<and> altitude_msl r' = (if s16_le alo ahi = - 1000 then altitude_msl r
                          else Some (real_of_int (s16_le alo ahi) * 0.5))
     \<and> direction r' = (if dir = 0xFF then None else Some (real (unat dir)))
     \<and> speed r' = (if spd = 0xFF then None else Some (real (unat spd) * 0.25))
     \<and> vertical_speed r' = (if sint vs = 0x7F then None
                            else Some (real_of_int (sint vs) * 0.5))"
proof -
  have len: "length m = 24" by (simp add: m)
  have sl: "slice m 13 15 = [alo, ahi]"
    by (simp add: slice_def m)
  have nth: "m ! 0 = 0x01" by (simp add: m)
  have step: "parse_message m 0 r = Inr (Continue 24 (location_fields m 1 r))"
    using parse_location_eq [of 1 m r]
    by (simp add: parse_message_def len nth MSG_TYPE_BASIC_ID_def MSG_TYPE_LOCATION_def)
  have "parse_loop m 0 r = Inr (location_fields m 1 r)"
    by (simp add: parse_loop.simps [of m 0] parse_loop.simps [of m 24] len step)
  moreover have "raw_signed 2 [alo, ahi] = s16_le alo ahi"
    by (simp add: raw_signed_def unpack_signed_2)
  moreover have "m ! Suc 0 = st" "m ! Suc (Suc 0) = dir" "m ! Suc (Suc (Suc 0)) = spd"
    "m ! (Suc 0 + 1) = dir" "m ! (Suc 0 + 2) = spd" "m ! (Suc 0 + 3) = vs"
    by (simp_all add: m)
  ultimately show ?thesis
    by (simp add: location_fields_def Let_def sl)
qed

section \<open>The time stamp does not influence the parse\<close>

lemma parse_location_timestamp:
  "parse_location data offset (r\<lparr>timestamp := t\<rparr>)
     = map_sum id (ctl_map (\<lambda>r. r\<lparr>timestamp := t\<rparr>)) (parse_location data offset r)"
proof (cases "offset + 23 \<le> length data")
  case True
  then show ?thesis
    by (simp add: parse_location_eq location_fields_def Let_def)
next
  case False
  then show ?thesis by (simp add: parse_location_skip)
qed

lemma parse_basic_id_timestamp:
  "parse_basic_id data offset (r\<lparr>timestamp := t\<rparr>)
     = map_sum id (ctl_map (\<lambda>r. r\<lparr>timestamp := t\<rparr>)) (parse_basic_id data offset r)"
  by (simp add: parse_basic_id_def bindE_def Let_def split: sum.split)

lemma parse_auth_timestamp:
  "parse_auth data offset (r\<lparr>timestamp := t\<rparr>)
     = map_sum id (ctl_map (\<lambda>r. r\<lparr>timestamp := t\<rparr>)) (parse_auth data offset r)"
  by (simp add: parse_auth_def bindE_def Let_def split: sum.split)

lemma parse_self_id_timestamp:
  "parse_self_id data offset (r\<lparr>timestamp := t\<rparr>)
     = map_sum id (ctl_map (\<lambda>r. r\<lparr>timestamp := t\<rparr>)) (parse_self_id data offset r)"
  by (simp add: parse_self_id_def bindE_def Let_def split: sum.split)

lemma parse_system_timestamp:
  "parse_system data offset (r\<lparr>timestamp := t\<rparr>)
     = map_sum id (ctl_map (\<lambda>r. r\<lparr>timestamp := t\<rparr>)) (parse_system data offset r)"
  by (simp add: parse_system_def bindE_def Let_def split: sum.split)

lemma parse_operator_id_timestamp:
  "parse_operator_id data offset (r\<lparr>timestamp := t\<rparr>)
     = map_sum id (ctl_map (\<lambda>r. r\<lparr>timestamp := t\<rparr>)) (parse_operator_id data offset r)"
  by (simp add: parse_operator_id_def bindE_def Let_def split: sum.split)

lemma parse_message_timestamp:
  "parse_message data offset (r\<lparr>timestamp := t\<rparr>)
     = map_sum id (ctl_map (\<lambda>r. r\<lparr>timestamp := t\<rparr>)) (parse_message data offset r)"
proof (cases "getitem data offset")
  case (Inl e)
  then show ?thesis by (simp add: parse_message_def)
next
  case (Inr b)
  then show ?thesis
    by (simp add: parse_message_def Let_def parse_location_timestamp parse_basic_id_timestamp
        parse_auth_timestamp parse_self_id_timestamp parse_system_timestamp
        parse_operator_id_timestamp)
qed

lemma parse_loop_timestamp:
  "parse_loop data offset (r\<lparr>timestamp := t\<rparr>)
     = map_sum id (\<lambda>r'. r'\<lparr>timestamp := t\<rparr>) (parse_loop data offset r)"
proof (induction data offset r rule: parse_loop.induct)
  case (1 data offset r)
  show ?case
  proof (cases "offset < length data \<and> \<not> length data \<le> offset + 1")
    case False
    then show ?thesis
      by (auto simp: parse_loop.simps [of data offset])
  next
    case True
    show ?thesis
    proof (cases "parse_message data offset r")
      case (Inl e)
      with True show ?thesis
        by (simp add: parse_loop.simps [of data offset] parse_message_timestamp)
    next
      case (Inr c)
      show ?thesis
      proof (cases c)
        case (Continue offset' r')
        with 1 [OF _ _ Inr Continue] True Inr show ?thesis
          by (simp add: parse_loop.simps [of data offset] parse_message_timestamp)
      next
        case (Break r')
        with True Inr show ?thesis
          by (simp add: parse_loop.simps [of data offset] parse_message_timestamp)
      qed
    qed
  qed
qed

lemma location_sentinel_keeps_altitude:
  "raw_signed 2 (slice data (offset + 12) (offset + 14)) = - 1000
     \<Longrightarrow> altitude_msl (location_fields data offset r) = altitude_msl r"
  by (simp add: location_fields_def Let_def)

section \<open>The printable-string decoder\<close>

lemma not_printable_high: "128 \<le> unat (x::byte) \<Longrightarrow> \<not> is_printable (unat x)"
  by (simp add: is_printable_def)

lemma is_cont_high: "is_cont b \<Longrightarrow> \<not> is_printable (unat b)"
  by (simp add: is_cont_def is_printable_def)

lemma second_ok_cont: "second_ok b0 b1 \<Longrightarrow> is_cont b1"
  by (simp add: second_ok_def)

lemma cp2_high:
  assumes "0xC2 \<le> c0"
  shows "\<not> is_printable ((c0 - 0xC0) * 64 + x)"
proof -
  from assms have "2 \<le> c0 - 0xC0" by simp
  then have "2 * 64 \<le> (c0 - 0xC0) * 64" by (rule mult_le_mono1)
  then show ?thesis by (simp add: is_printable_def)
qed

lemma cp3_high:
  assumes "second_ok b0 b1" "0xE0 \<le> unat b0"
  shows "\<not> is_printable ((unat b0 - 0xE0) * 4096 + (unat b1 - 0x80) * 64 + x)"
proof (cases "unat b0 = 0xE0")
  case True
  with assms have "0xA0 \<le> unat b1" by (simp add: second_ok_def)
  then have "32 \<le> unat b1 - 0x80" by simp
  then have "32 * 64 \<le> (unat b1 - 0x80) * 64" by (rule mult_le_mono1)
  then show ?thesis by (simp add: is_printable_def)
next
  case False
  with assms have "1 \<le> unat b0 - 0xE0" by simp
  then have "1 * 4096 \<le> (unat b0 - 0xE0) * 4096" by (rule mult_le_mono1)
  then show ?thesis by (simp add: is_printable_def)
qed

lemma cp4_high:
  assumes "second_ok b0 b1" "0xF0 \<le> unat b0"
  shows "\<not> is_printable ((unat b0 - 0xF0) * 262144 + (unat b1 - 0x80) * 4096 + x + y)"
proof (cases "unat b0 = 0xF0")
  case True
  with assms have "0x90 \<le> unat b1" by (simp add: second_ok_def)
  then have "16 \<le> unat b1 - 0x80" by simp
  then have "16 * 4096 \<le> (unat b1 - 0x80) * 4096" by (rule mult_le_mono1)
  then show ?thesis by (simp add: is_printable_def)
next
  case False
  with assms have "1 \<le> unat b0 - 0xF0" by simp
  then have "1 * 262144 \<le> (unat b0 - 0xF0) * 262144" by (rule mult_le_mono1)
  then show ?thesis by (simp add: is_printable_def)
qed

lemma utf8_ascii_step:
  "unat b0 < 0x80 \<Longrightarrow> utf8_decode_ignore (b0 # bs) = unat b0 # utf8_decode_ignore bs"
  by (subst utf8_decode_ignore.simps(2)) (simp only: Let_def if_True)

lemma utf8_bad_step:
  assumes "(0x80 \<le> unat b0 \<and> unat b0 < 0xC2) \<or> 0xF5 \<le> unat b0"
  shows "utf8_decode_ignore (b0 # bs) = utf8_decode_ignore bs"
proof (cases "unat b0 < 0xC2")
  case True
  with assms have c: "\<not> unat b0 < 0x80" by simp
  show ?thesis
    by (subst utf8_decode_ignore.simps(2)) (simp only: Let_def c True if_True if_False)
next
  case False
  with assms have c: "\<not> unat b0 < 0x80" "\<not> unat b0 < 0xC2" "\<not> unat b0 < 0xE0"
    "\<not> unat b0 < 0xF0" "\<not> unat b0 < 0xF5" by simp_all
  show ?thesis
    by (subst utf8_decode_ignore.simps(2)) (simp only: Let_def c if_False)
qed

lemma utf8_two:
  assumes "0xC2 \<le> unat b0" "unat b0 < 0xE0"
  shows "utf8_decode_ignore (b0 # bs) =
        (case bs of
           [] \<Rightarrow> []
         | b1 # r1 \<Rightarrow>
             if is_cont b1
             then ((unat b0 - 0xC0) * 64 + (unat b1 - 0x80)) # utf8_decode_ignore r1
             else utf8_decode_ignore bs)"
proof -
  have c: "\<not> unat b0 < 0x80" "\<not> unat b0 < 0xC2"
    using assms by simp_all
  show ?thesis
    by (subst utf8_decode_ignore.simps(2)) (simp only: Let_def c assms(2) if_True if_False)
qed

lemma utf8_three:
  assumes "0xE0 \<le> unat b0" "unat b0 < 0xF0"
  shows "utf8_decode_ignore (b0 # bs) =
        (case bs of
           [] \<Rightarrow> []
         | b1 # r1 \<Rightarrow>
             if \<not> second_ok b0 b1 then utf8_decode_ignore bs
             else (case r1 of
                     [] \<Rightarrow> []
                   | b2 # r2 \<Rightarrow>
                       if is_cont b2
                       then ((unat b0 - 0xE0) * 4096 + (unat b1 - 0x80) * 64 + (unat b2 - 0x80))
                              # utf8_decode_ignore r2
                       else utf8_decode_ignore r1))"
proof -
  have c: "\<not> unat b0 < 0x80" "\<not> unat b0 < 0xC2" "\<not> unat b0 < 0xE0"
    using assms by simp_all
  show ?thesis
    by (subst utf8_decode_ignore.simps(2)) (simp only: Let_def c assms(2) if_True if_False)
qed

lemma utf8_four:
  assumes "0xF0 \<le> unat b0" "unat b0 < 0xF5"
  shows "utf8_decode_ignore (b0 # bs) =
        (case bs of
           [] \<Rightarrow> []
         | b1 # r1 \<Rightarrow>
             if \<not> second_ok b0 b1 then utf8_decode_ignore bs
             else (case r1 of
                     [] \<Rightarrow> []
                   | b2 # r2 \<Rightarrow>
                       if \<not> is_cont b2 then utf8_decode_ignore r1
                       else (case r2 of
                               [] \<Rightarrow> []
                             | b3 # r3 \<Rightarrow>
                                 if is_cont b3
                                 then ((unat b0 - 0xF0) * 262144 + (unat b1 - 0x80) * 4096
                                        + (unat b2 - 0x80) * 64 + (unat b3 - 0x80))
                                        # utf8_decode_ignore r3
                                 else utf8_decode_ignore r2)))"
proof -
  have c: "\<not> unat b0 < 0x80" "\<not> unat b0 < 0xC2" "\<not> unat b0 < 0xE0" "\<not> unat b0 < 0xF0"
    using assms by simp_all
  show ?thesis
    by (subst utf8_decode_ignore.simps(2)) (simp only: Let_def c assms(2) if_True if_False)
qed

lemma utf8_keeps_printable:
  "filter is_printable (utf8_decode_ignore b) = filter is_printable (map unat b)"
proof (induction "length b" arbitrary: b rule: less_induct)
  case less
  show ?case
  proof (cases b)
    case Nil
    then show ?thesis by simp
  next
    case (Cons b0 bs)
    have IH: "length xs \<le> length bs
      \<Longrightarrow> filter is_printable (utf8_decode_ignore xs) = filter is_printable (map unat xs)" for xs
      using less [of xs] Cons by simp
    consider (ascii) "unat b0 < 0x80"
      | (bad) "(0x80 \<le> unat b0 \<and> unat b0 < 0xC2) \<or> 0xF5 \<le> unat b0"
      | (two) "0xC2 \<le> unat b0" "unat b0 < 0xE0"
      | (three) "0xE0 \<le> unat b0" "unat b0 < 0xF0"
      | (four) "0xF0 \<le> unat b0" "unat b0 < 0xF5"
      by linarith
    then show ?thesis
    proof cases
      case ascii
      show ?thesis
        unfolding Cons utf8_ascii_step [OF ascii] using IH [of bs] by simp
    next
      case bad
      then have "\<not> is_printable (unat b0)" by (auto simp: is_printable_def)
      then show ?thesis
        unfolding Cons utf8_bad_step [OF bad] using IH [of bs] by simp
    next
      case two
      then have hi: "\<not> is_printable (unat b0)" by (simp add: is_printable_def)
      show ?thesis
        unfolding Cons utf8_two [OF two]
        using hi IH [of bs] IH [of "tl bs"] cp2_high [OF two(1)]
        by (cases bs) (simp_all add: is_cont_high)
    next
      case three
      then have hi: "\<not> is_printable (unat b0)" by (simp add: is_printable_def)
      show ?thesis
      proof (cases bs)
        case Nil
        then show ?thesis unfolding Cons utf8_three [OF three] using hi by simp
      next
        case b1: (Cons b1 r1)
        show ?thesis
        proof (cases "second_ok b0 b1")
          case False
          then show ?thesis
            unfolding Cons utf8_three [OF three] using hi b1 IH [of bs] by simp
        next
          case so: True
          then have h1: "\<not> is_printable (unat b1)"
            by (simp add: second_ok_cont is_cont_high)
          show ?thesis
            unfolding Cons utf8_three [OF three]
            using hi h1 so b1 IH [of r1] IH [of "tl r1"] cp3_high [OF so three(1)]
            by (cases r1) (simp_all add: is_cont_high)
        qed
      qed
    next
      case four
      then have hi: "\<not> is_printable (unat b0)" by (simp add: is_printable_def)
      show ?thesis
      proof (cases bs)
        case Nil
        then show ?thesis unfolding Cons utf8_four [OF four] using hi by simp
      next
        case b1: (Cons b1 r1)
        show ?thesis
        proof (cases "second_ok b0 b1")
          case False
          then show ?thesis
            unfolding Cons utf8_four [OF four] using hi b1 IH [of bs] by simp
        next
          case so: True
          then have h1: "\<not> is_printable (unat b1)"
            by (simp add: second_ok_cont is_cont_high)
          show ?thesis
          proof (cases r1)
            case Nil
            then show ?thesis
              unfolding Cons utf8_four [OF four] using hi h1 so b1 by simp
          next
            case b2: (Cons b2 r2)
            show ?thesis
            proof (cases "is_cont b2")
              case False
              then show ?thesis
                unfolding Cons utf8_four [OF four] using hi h1 so b1 b2 IH [of r1] by simp
            next
              case c2: True
              then have h2: "\<not> is_printable (unat b2)" by (simp add: is_cont_high)
              show ?thesis
                unfolding Cons utf8_four [OF four]
                using hi h1 h2 so c2 b1 b2 IH [of r2] IH [of "tl r2"] cp4_high [OF so four(1)]
                by (cases r2) (simp_all add: is_cont_high)
            qed
          qed
        qed
      qed
    qed
  qed
qed

lemma filter_dropWhile_irrelevant:
  "(\<And>x. Q x \<Longrightarrow> \<not> P x) \<Longrightarrow> filter P (dropWhile Q xs) = filter P xs"
  by (induction xs) auto

lemma rstrip_nul_keeps_printable:
  "filter is_printable (rstrip_nul s) = filter is_printable s"
proof -
  have "filter is_printable (dropWhile (\<lambda>c. c = 0) (rev s)) = filter is_printable (rev s)"
    by (rule filter_dropWhile_irrelevant) (simp add: is_printable_def)
  then show ?thesis
    by (simp add: rstrip_nul_def rev_filter [symmetric])
qed

lemma utf8_ascii:
  "list_all (\<lambda>x. unat x < 0x80) b \<Longrightarrow> utf8_decode_ignore b = map unat b"
  by (induction b) (simp_all add: utf8_ascii_step)

section \<open>Threat assessment\<close>






text \<open>
  A buffer that is one Location/Vector message, decoded by \<open>decode_from_raw_bytes\<close>: here
  the record is new, and every field is absent exactly at its sentinel.
\<close>

lemma single_location_message_sentinels:
  "\<exists>r. decode_from_raw_bytes now
          [0x01, st, dir, spd, vs, l0, l1, l2, l3, g0, g1, g2, g3, alo, ahi, hlo, hhi,
           p0, p1, p2, p3, p4, p5, p6] = Inr (Some r)
     \<and> (altitude_msl r = None \<longleftrightarrow> s16_le alo ahi = - 1000)
     \<and> (direction r = None \<longleftrightarrow> dir = 0xFF)
     \<and> (speed r = None \<longleftrightarrow> spd = 0xFF)
     \<and> (vertical_speed r = None \<longleftrightarrow> sint vs = 0x7F)
     \<and> altitude_msl r \<noteq> Some (- 1000 * 0.5)
     \<and> direction r \<noteq> Some 0xFF
     \<and> speed r \<noteq> Some 0xFF \<and> speed r \<noteq> Some (0xFF * 0.25)
     \<and> vertical_speed r \<noteq> Some 0x7F \<and> vertical_speed r \<noteq> Some (0x7F * 0.5)"
proof -
  let ?m = "[0x01, st, dir, spd, vs, l0, l1, l2, l3, g0, g1, g2, g3, alo, ahi, hlo, hhi,
             p0, p1, p2, p3, p4, p5, p6]"
  let ?r0 = "RemoteIDData_new\<lparr>timestamp := Some now\<rparr>"
  obtain r' where p: "parse_loop ?m 0 ?r0 = Inr r'"
    and f: "altitude_msl r' = (if s16_le alo ahi = - 1000 then altitude_msl ?r0
                          else Some (real_of_int (s16_le alo ahi) * 0.5))"
     "direction r' = (if dir = 0xFF then None else Some (real (unat dir)))"
     "speed r' = (if spd = 0xFF then None else Some (real (unat spd) * 0.25))"
     "vertical_speed r' = (if sint vs = 0x7F then None else Some (real_of_int (sint vs) * 0.5))"
    using decode_one_location_message [OF refl, of st dir spd vs l0 l1 l2 l3 g0 g1 g2 g3 alo ahi hlo hhi
        p0 p1 p2 p3 p4 p5 p6 ?r0] by blast
  have a0: "altitude_msl ?r0 = None" by (simp add: RemoteIDData_new_def)
  have d1: "dir \<noteq> 0xFF \<Longrightarrow> real (unat dir) \<noteq> 255"
    using unat_255 [of dir] by auto
  have "real (unat spd) < 256"
    using unat_lt_256 [of spd] by simp
  then have s1: "real (unat spd) * 0.25 \<noteq> 255" by simp
  have s2: "spd \<noteq> 0xFF \<Longrightarrow> real (unat spd) * 0.25 \<noteq> 255 * 0.25"
    using unat_255 [of spd] by auto
  have "real_of_int (sint vs) \<le> 127"
    using sint_byte_bounds [of vs] by simp
  then have v1: "real_of_int (sint vs) * 0.5 \<noteq> 127" by simp
  have v2: "sint vs \<noteq> 127 \<Longrightarrow> real_of_int (sint vs) * 0.5 \<noteq> 127 * 0.5"
    by simp
  have a1: "s16_le alo ahi \<noteq> - 1000
      \<Longrightarrow> real_of_int (s16_le alo ahi) * 0.5 \<noteq> - 1000 * 0.5"
    by simp
  obtain r where r: "decode_from_raw_bytes now ?m = Inr (Some r)"
    using decode_from_raw_bytes_total by blast
  have same: "altitude_msl r = altitude_msl r'" "direction r = direction r'"
      "speed r = speed r'" "vertical_speed r = vertical_speed r'"
    using r p
    by (auto simp: decode_from_raw_bytes_def parse_remote_id_messages_def Let_def
        split: option.splits if_splits)
  show ?thesis
    using r same f a0 d1 s1 s2 v1 v2 a1
    by (intro exI [of _ r]) (simp split: if_splits)
qed

section \<open>The suffix scans\<close>

lemmas msg_types = MSG_TYPE_BASIC_ID_def MSG_TYPE_LOCATION_def MSG_TYPE_AUTH_def
  MSG_TYPE_SELF_ID_def MSG_TYPE_SYSTEM_def MSG_TYPE_OPERATOR_ID_def

lemma parse_unknown_step:
  "offset < length data \<Longrightarrow> data ! offset = 0xFF
     \<Longrightarrow> parse_message data offset r = Inr (Continue (offset + 2) r)"
  by (simp add: parse_message_def Let_def msg_types)

lemma parse_loop_filler:
  "(\<forall>i. offset \<le> i \<and> i < length data \<longrightarrow> data ! i = 0xFF)
     \<Longrightarrow> parse_loop data offset r = Inr r"
proof (induction data offset r rule: parse_loop.induct)
  case (1 data offset r)
  show ?case
  proof (cases "offset < length data \<and> \<not> length data \<le> offset + 1")
    case False
    then show ?thesis by (auto simp: parse_loop.simps [of data offset r])
  next
    case True
    then have step: "parse_message data offset r = Inr (Continue (offset + 2) r)"
      using 1(2) by (simp add: parse_unknown_step)
    have "parse_loop data (offset + 2) r = Inr r"
      using 1(1) [OF _ _ step refl] True 1(2) by simp
    with True step show ?thesis
      by (simp add: parse_loop.simps [of data offset r])
  qed
qed


lemma id_frame_length: "length (id_frame k) = 23 + k"
  by (simp add: id_frame_def bytes_of_def)

lemma printable_A:
  "decode_printable (slice (id_frame k) 2 22) = str ''DJI-TEST-0000000000''"
proof -
  have "slice (id_frame k) 2 22 = 0x01 # bytes_of ''DJI-TEST-0000000000''"
    by (simp add: id_frame_def bytes_of_def slice_def)
  then show ?thesis by (simp only:) code_simp
qed

lemma id_frame_drop: "drop (Suc 0) (id_frame k) = id_frame_tail k"
  by (simp add: id_frame_def id_frame_tail_def)

lemma printable_B:
  "decode_printable (slice (id_frame_tail k) 2 22) = str ''DJI-TEST-00000000001''"
proof -
  have "slice (id_frame_tail k) 2 22 = bytes_of ''DJI-TEST-00000000001''"
    by (simp add: id_frame_tail_def bytes_of_def slice_def)
  then show ?thesis by (simp only:) code_simp
qed

lemma parse_frame_A:
  assumes "2 \<le> k"
  shows "parse_loop (id_frame k) 0 r
    = Inr (r\<lparr>uas_id_type := Some (str ''None''),
             uas_id := Some (str ''DJI-TEST-0000000000'')\<rparr>)"
proof -
  let ?d = "id_frame k"
  let ?r = "r\<lparr>uas_id_type := Some (str ''None''),
             uas_id := Some (str ''DJI-TEST-0000000000'')\<rparr>"
  have nth: "?d ! 0 = 0x00" "?d ! Suc 0 = 0x00" "?d ! 22 = 0x31"
    by (simp_all add: id_frame_def bytes_of_def)
  have pr: "decode_printable (slice ?d (Suc (Suc 0)) 22) = str ''DJI-TEST-0000000000''"
    using printable_A [of k] by (simp add: numeral_2_eq_2)
  have s0: "parse_message ?d 0 r = Inr (Continue 22 ?r)"
    using assms
    by (simp add: parse_message_def parse_basic_id_def Let_def msg_types id_frame_length nth
        pr ID_TYPES_get_def)
  have s1: "parse_message ?d 22 ?r = Inr (Continue 24 ?r)"
    by (simp add: parse_message_def Let_def msg_types id_frame_length nth)
  have fill: "\<forall>i. 24 \<le> i \<and> i < length ?d \<longrightarrow> ?d ! i = 0xFF"
    by (auto simp: id_frame_def bytes_of_def nth_append)
  have "parse_loop ?d 24 ?r = Inr ?r"
    using fill by (rule parse_loop_filler)
  then show ?thesis
    using assms
    by (simp add: parse_loop.simps [of ?d 0] parse_loop.simps [of ?d 22] id_frame_length s0 s1)
qed


lemma parse_frame_B:
  assumes "2 \<le> k"
  shows "parse_loop (id_frame_tail k) 0 r
    = Inr (r\<lparr>uas_id_type := Some (str ''Serial Number''),
             uas_id := Some (str ''DJI-TEST-00000000001'')\<rparr>)"
proof -
  let ?d = "id_frame_tail k"
  let ?r = "r\<lparr>uas_id_type := Some (str ''Serial Number''),
             uas_id := Some (str ''DJI-TEST-00000000001'')\<rparr>"
  have len: "length ?d = 22 + k" by (simp add: id_frame_tail_def bytes_of_def)
  have nth: "?d ! 0 = 0x00" "?d ! Suc 0 = 0x01" "?d ! 22 = 0xFF"
    using assms by (simp_all add: id_frame_tail_def bytes_of_def nth_append)
  have pr: "decode_printable (slice ?d (Suc (Suc 0)) 22) = str ''DJI-TEST-00000000001''"
    using printable_B [of k] by (simp add: numeral_2_eq_2)
  have s0: "parse_message ?d 0 r = Inr (Continue 22 ?r)"
    using assms
    by (simp add: parse_message_def parse_basic_id_def Let_def msg_types len nth
        pr ID_TYPES_get_def)
  have fill: "\<forall>i. 22 \<le> i \<and> i < length ?d \<longrightarrow> ?d ! i = 0xFF"
    by (auto simp: id_frame_tail_def bytes_of_def nth_append)
  have "parse_loop ?d 22 ?r = Inr ?r"
    using fill by (rule parse_loop_filler)
  then show ?thesis
    using assms
    by (simp add: parse_loop.simps [of ?d 0] len s0)
qed

lemma valid_ids:
  "is_valid_id (Some (str ''DJI-TEST-0000000000''))"
  "is_valid_id (Some (str ''DJI-TEST-00000000001''))"
  by code_simp+

lemma decode_frame_A:
  "2 \<le> k \<Longrightarrow> decode_from_raw_bytes now (id_frame k) = Inr (Some (none_record now))"
  by (simp add: decode_from_raw_bytes_def parse_remote_id_messages_def parse_frame_A Let_def
      valid_ids none_record_def RemoteIDData_new_def)

lemma decode_frame_B:
  "2 \<le> k \<Longrightarrow> decode_from_raw_bytes now (id_frame_tail k) = Inr (Some (id_record now))"
  by (simp add: decode_from_raw_bytes_def parse_remote_id_messages_def parse_frame_B Let_def
      valid_ids id_record_def RemoteIDData_new_def)

lemma frame_filters:
  "\<not> (id_ok (none_record t) \<or> has_location (none_record t))"
  "\<not> (id_ok_first (none_record t) \<or> has_location (none_record t))"
  "id_ok (id_record t)"
  by (simp_all add: id_ok_def id_ok_first_def has_location_def none_record_def id_record_def
      RemoteIDData_new_def or_empty_def lower_def lower_char_def allowed_types_def str_def
      is_plausible_ascii_def is_printable_def contains_def find_sub_def)

lemma scan_frame:
  assumes "2 \<le> k" "2 \<le> stop"
  shows "suffix_scan clock (id_frame k) stop 0 = Some (id_record (clock 2))"
  using assms
  by (simp add: suffix_scan.simps [of _ _ _ 0] suffix_scan.simps [of _ _ _ "Suc 0"]
      decode_frame_A decode_frame_B frame_filters numeral_2_eq_2 id_frame_drop)

lemma suffix_scan_find:
  "suffix_scan clock data stop i =
     (case find (\<lambda>j. accepted_at clock data j \<noteq> None) [i..<stop] of
        None \<Rightarrow> None
      | Some j \<Rightarrow> accepted_at clock data j)"
proof (induction clock data stop i rule: suffix_scan.induct)
  case (1 clock data stop i)
  show ?case
  proof (cases "i < stop")
    case False
    then show ?thesis by (simp add: suffix_scan.simps [of clock data stop i])
  next
    case True
    then have u: "[i..<stop] = i # [Suc i..<stop]" by (simp add: upt_conv_Cons)
    obtain rid where d: "decode_from_raw_bytes (clock (Suc i)) (drop i data) = Inr (Some rid)"
      using decode_from_raw_bytes_total by blast
    show ?thesis
    proof (cases "id_ok rid \<or> has_location rid")
      case ok: True
      with True d show ?thesis
        by (simp add: suffix_scan.simps [of clock data stop i] u accepted_at_def)
    next
      case no: False
      with 1 True d show ?thesis
        by (simp add: suffix_scan.simps [of clock data stop i] u accepted_at_def)
    qed
  qed
qed

section \<open>What every decoded record satisfies\<close>






















section \<open>What is emitted\<close>








section \<open>The claims\<close>

text \<open>
  C3 (what the code does). The Location/Vector message of Scenario B is 22 bytes long:
  the type byte and 21 bytes of payload. The decoder reads a Location/Vector message only
  when 23 bytes follow the type byte, so it decodes nothing from this message: the record
  it returns has no latitude, longitude, altitude, height, speed, direction, vertical
  speed or status, only the time stamp. The packet of \<open>create_test_remote_id_packet\<close> has
  the same layout.
\<close>

theorem scenario_B_not_decoded:
  "decode_from_raw_bytes now scenario_B
     = Inr (Some (RemoteIDData_new\<lparr>timestamp := Some now\<rparr>))"
  by code_simp

text \<open>
  C6. The channel plan \<open>2g:1-3,5g:36/40\<close> gives exactly the frequencies 2.412, 2.417,
  2.422, 5.180 and 5.200 GHz, in this order and as this set. A channel \<open>ch\<close> of the
  2.4 GHz band has its centre at \<open>2412 + 5 (ch - 1)\<close> MHz, a channel of the 5 GHz band at
  \<open>5000 + 5 ch\<close> MHz.
\<close>

theorem channel_plan_scenario_F:
  "scan_channels (str ''2g:1-3,5g:36/40'')
     = [2412000000, 2417000000, 2422000000, 5180000000, 5200000000]
   \<and> set (scan_channels (str ''2g:1-3,5g:36/40''))
     = {2.412 * 10 ^ 9, 2.417 * 10 ^ 9, 2.422 * 10 ^ 9, 5.180 * 10 ^ 9, 5.200 * 10 ^ 9}
   \<and> (\<forall>ch. ch_to_freq_2g ch = (2412 + 5 * (real_of_int ch - 1)) * 10 ^ 6)
   \<and> (\<forall>ch. ch_to_freq_5g ch = (5000 + 5 * real_of_int ch) * 10 ^ 6)"
proof -
  have n: "str ''2g:1-3,5g:36/40'' \<noteq> []" "str ''2g:1-3,5g:36/40'' \<noteq> str ''all''"
    by (simp_all add: str_def)
  have plan: "scan_channels (str ''2g:1-3,5g:36/40'')
     = [2412000000, 2417000000, 2422000000, 5180000000, 5200000000]"
    by (simp add: scan_channels_def plan_F_lower n plan_F_parts plan_F_2g plan_F_5g)
  have "\<forall>ch. ch_to_freq_2g ch = (2412 + 5 * (real_of_int ch - 1)) * 10 ^ 6"
    by (simp add: ch_to_freq_2g_def algebra_simps)
  moreover have "\<forall>ch. ch_to_freq_5g ch = (5000 + 5 * real_of_int ch) * 10 ^ 6"
    by (simp add: ch_to_freq_5g_def algebra_simps)
  ultimately show ?thesis
    unfolding plan by simp
qed

text \<open>
  C10. For every byte string and every reading of the clock, \<open>decode_from_raw_bytes\<close>
  raises nothing and returns a record, never \<open>None\<close>. For the empty byte string the record
  has no field set but the time stamp. The validity test is the callers': on that input
  the decoder still returns its record, and the BLE scanner and the Wi-Fi scan, which
  apply the test, return \<open>None\<close>.
\<close>

theorem decode_from_raw_bytes_always_record:
  "(\<exists>r. decode_from_raw_bytes now data = Inr (Some r))
   \<and> decode_from_raw_bytes now [] = Inr (Some (RemoteIDData_new\<lparr>timestamp := Some now\<rparr>))
   \<and> try_decode clock [] = None
   \<and> try_decode_from_bytes clock [] = None"
proof -
  have "try_decode clock [] = None"
    using filter_rejects_new(1) [of "clock 0"]
    by (simp add: try_decode_def decode_empty range_stop_def suffix_scan.simps [of _ _ 0])
  moreover have "try_decode_from_bytes clock [] = None"
    using filter_rejects_new(2) [of "clock 0"]
    by (simp add: try_decode_from_bytes_def decode_empty range_stop_def
        suffix_scan.simps [of _ _ 0])
  ultimately show ?thesis
    using decode_from_raw_bytes_total decode_empty by simp
qed

text \<open>
  C4 (as stated, refuted). In a buffer with two Location/Vector messages, the first with
  the altitude field 241 and the second with the sentinel -1000, the second message is
  decoded and the altitude of the record is still 120.5, not absent: the branch assigns
  the altitude only when the field differs from -1000 and never clears it.
\<close>

theorem location_sentinels_counterexample:
  "decode_from_raw_bytes 0 two_locations
     = Inr (Some (RemoteIDData_new\<lparr>timestamp := Some 0, status := Some (str ''Airborne''),
         direction := Some 87, speed := Some 12.25, vertical_speed := Some 2.5,
         latitude := Some 12.3585, longitude := Some (- 1.5352),
         altitude_msl := Some 120.5, height := Some 45\<rparr>))
   \<and> two_locations ! 24 = 0x01 \<and> length two_locations = 48
   \<and> s16_le (two_locations ! 37) (two_locations ! 38) = - 1000"
  by code_simp


text \<open>
  C4 (amended). For every Location/Vector message that is decoded, at any place of any
  buffer and into any record: the direction is absent exactly when its byte is 0xFF, the
  speed exactly when its byte is 0xFF, the vertical speed exactly when its signed byte is
  0x7F; the altitude is set to half the 16-bit field when the field differs from -1000,
  and keeps the value it had before the message when the field is -1000 (so it is absent
  exactly at the sentinel in a record that had no altitude). No sentinel is decoded to a
  number: the direction is never 255, the speed neither 255 nor its quarter, the vertical
  speed neither 127 nor its half, and the altitude is the half of -1000 only if the
  record held that value before.
\<close>

theorem location_sentinels_amended:
  assumes "offset + 23 \<le> length data"
  shows "\<exists>r'. parse_location data offset r = Inr (Continue (offset + 23) r')
     \<and> (direction r' = None \<longleftrightarrow> data ! (offset + 1) = 0xFF)
     \<and> (speed r' = None \<longleftrightarrow> data ! (offset + 2) = 0xFF)
     \<and> (vertical_speed r' = None \<longleftrightarrow> sint (data ! (offset + 3)) = 0x7F)
     \<and> altitude_msl r' =
         (if s16_le (data ! (offset + 12)) (data ! (offset + 13)) = - 1000 then altitude_msl r
          else Some (real_of_int (s16_le (data ! (offset + 12)) (data ! (offset + 13))) * 0.5))
     \<and> direction r' \<noteq> Some 0xFF
     \<and> speed r' \<noteq> Some 0xFF \<and> speed r' \<noteq> Some (0xFF * 0.25)
     \<and> vertical_speed r' \<noteq> Some 0x7F \<and> vertical_speed r' \<noteq> Some (0x7F * 0.5)
     \<and> (altitude_msl r' = Some (- 1000 * 0.5) \<longleftrightarrow> 
          s16_le (data ! (offset + 12)) (data ! (offset + 13)) = - 1000
          \<and> altitude_msl r = Some (- 1000 * 0.5))"
proof -
  let ?dir = "data ! (offset + 1)" and ?spd = "data ! (offset + 2)"
  let ?vs = "data ! (offset + 3)"
  let ?alt = "s16_le (data ! (offset + 12)) (data ! (offset + 13))"
  have "slice data (offset + 12) (offset + 14) = [data ! (offset + 12), data ! (offset + 13)]"
    using assms
    by (simp add: slice_def take_Suc_conv_app_nth numeral_2_eq_2 Cons_nth_drop_Suc [symmetric]
        add.commute)
  then have alt: "raw_signed 2 (slice data (offset + 12) (offset + 14)) = ?alt"
    by (simp add: raw_signed_def unpack_signed_2)
  have d1: "?dir \<noteq> 0xFF \<Longrightarrow> real (unat ?dir) \<noteq> 255"
    using unat_255 [of ?dir] by auto
  have "real (unat ?spd) < 256"
    using unat_lt_256 [of ?spd] by simp
  then have s1: "real (unat ?spd) * 0.25 \<noteq> 255" by simp
  have s2: "?spd \<noteq> 0xFF \<Longrightarrow> real (unat ?spd) * 0.25 \<noteq> 255 * 0.25"
    using unat_255 [of ?spd] by auto
  have "real_of_int (sint ?vs) \<le> 127"
    using sint_byte_bounds [of ?vs] by simp
  then have v1: "real_of_int (sint ?vs) * 0.5 \<noteq> 127" by simp
  have v2: "sint ?vs \<noteq> 127 \<Longrightarrow> real_of_int (sint ?vs) * 0.5 \<noteq> 127 * 0.5"
    by simp
  have a1: "?alt \<noteq> - 1000 \<Longrightarrow> real_of_int ?alt * 0.5 \<noteq> - 1000 * 0.5"
    by simp
  show ?thesis
    using d1 s1 s2 v1 v2 a1
    by (simp add: parse_location_eq [OF assms] location_fields_def Let_def alt)
qed


theorem location_sentinels_amended_witness:
  "25 + 23 \<le> length two_locations
   \<and> (\<exists>r'. parse_location two_locations 25 (RemoteIDData_new\<lparr>altitude_msl := Some 120.5\<rparr>)
             = Inr (Continue (25 + 23) r')
        \<and> altitude_msl r' = Some 120.5 \<and> direction r' \<noteq> None)"
proof -
  have h: "25 + 23 \<le> length two_locations" by (simp add: two_locations_def)
  have n: "two_locations ! (25 + 1) = 0x57" "two_locations ! (25 + 12) = 0x18"
    "two_locations ! (25 + 13) = 0xFC"
    by (simp_all add: two_locations_def)
  have s: "s16_le 0x18 0xFC = - 1000" by (simp add: s16_le_def)
  show ?thesis
    using location_sentinels_amended [OF h, of "RemoteIDData_new\<lparr>altitude_msl := Some 120.5\<rparr>"] h
    unfolding n s by auto
qed


text \<open>
  C9 (as stated, refuted). Two runs on the same buffer return the same record only if the
  clock has not moved: the decoder stores the reading of the clock in \<open>timestamp\<close>. On the
  empty buffer, runs at the readings 0 and 1 return different records.
\<close>

theorem decode_twice_counterexample: "decode_from_raw_bytes 0 [] \<noteq> decode_from_raw_bytes 1 []"
  by (simp add: decode_empty RemoteIDData_new_def)


text \<open>
  C9 (amended). Two runs on the same buffer return records that are equal in every field
  but \<open>timestamp\<close>, which holds the reading of the clock of each run.
\<close>

theorem decode_twice_equal_but_timestamp:
  "\<exists>r. decode_from_raw_bytes t1 data = Inr (Some (r\<lparr>timestamp := Some t1\<rparr>))
     \<and> decode_from_raw_bytes t2 data = Inr (Some (r\<lparr>timestamp := Some t2\<rparr>))"
proof -
  let ?new = "RemoteIDData_new"
  obtain p where p: "parse_loop data 0 ?new = Inr p"
    using parse_loop_total by blast
  have q: "parse_loop data 0 (?new\<lparr>timestamp := Some t\<rparr>) = Inr (p\<lparr>timestamp := Some t\<rparr>)" for t
    by (simp add: parse_loop_timestamp p)
  have d: "decode_from_raw_bytes t data = Inr (Some ((case decode_from_raw_bytes 0 data of Inr (Some r) \<Rightarrow> r)\<lparr>timestamp := Some t\<rparr>))" for t
    by (simp add: decode_from_raw_bytes_def parse_remote_id_messages_def q Let_def
        split: option.split)
  show ?thesis
    using d [of t1] d [of t2] by blast
qed

text \<open>
  C8 (as stated, refuted). The fallback to hexadecimal is not decided by half of the input
  bytes. The three bytes \<open>ABC\<close> are all printable and all survive, and the result is the
  hexadecimal text \<open>414243\<close>. The twenty bytes \<open>ABCDEF\<close> followed by fourteen NUL bytes
  keep six characters, fewer than half of twenty, and the result is \<open>ABCDEF\<close>, not the
  hexadecimal text.
\<close>

theorem decode_printable_counterexample:
  "decode_printable (bytes_of ''ABC'') = str ''414243''
   \<and> filter is_printable (map unat (bytes_of ''ABC'')) = str ''ABC''
   \<and> decode_printable (bytes_of ''ABCDEF'' @ replicate 14 0) = str ''ABCDEF''
   \<and> length (bytes_of ''ABCDEF'' @ replicate 14 0) = 20"
  by code_simp

text \<open>
  C8 (amended). For every byte string \<open>b\<close>, the characters that are kept are exactly the
  bytes of \<open>b\<close> with codes 0x20 to 0x7E, in their order. The result is this text if it
  has at least \<open>max 6 (n div 2)\<close> characters, where \<open>n\<close> is the number of characters of the
  UTF-8 decoding of \<open>b\<close> (undecodable bytes dropped) without its trailing NULs; otherwise
  it is the upper-case hexadecimal text of \<open>b\<close>.
\<close>

theorem decode_printable_fallback:
  "decode_printable b =
     (if max 6 (length (rstrip_nul (utf8_decode_ignore b)) div 2)
           \<le> length (filter is_printable (map unat b))
      then filter is_printable (map unat b)
      else upper (bytes_hex b))"
  by (simp add: decode_printable_def Let_def rstrip_nul_keeps_printable utf8_keeps_printable)

text \<open>
  C7 (as stated, refuted). At 25 MS/s the Nyquist frequency is 12.5 MHz. With the cutoffs
  (4 MHz, 12 MHz), the upper one above 0.9 times Nyquist, and with the inverted cutoffs
  (6 MHz, 4 MHz), \<open>bandpass_filter\<close> logs no warning and applies the filter: the samples
  that come back are the filter's, not the input.
\<close>

theorem bandpass_filter_counterexample:
  "bandpass_filter zero_filter \<lparr>sample_rate = 25000000\<rparr> [Complex 1 1] 4000000 12000000 6
     = Inr (False, [Complex 0 0])
   \<and> 12000000 > 0.9 * (25000000 / 2 :: real)
   \<and> bandpass_filter zero_filter \<lparr>sample_rate = 25000000\<rparr> [Complex 1 1] 6000000 4000000 6
     = Inr (False, [Complex 0 0])"
  by (simp add: bandpass_filter_def py_div_def zero_filter_def)


text \<open>
  C7 (amended). For a positive sample rate, the band-pass step returns its input unchanged
  and logs a warning exactly when the lower cutoff is at most 0 or the upper cutoff is at
  least the Nyquist frequency; otherwise the filter of order 6 is applied to the real
  parts and to the imaginary parts separately, and the two results are paired again.
\<close>

theorem bandpass_filter_bypass:
  assumes "0 < sample_rate self"
  shows "bandpass_filter f self iq low_freq high_freq 6 =
     (if low_freq \<le> 0 \<or> sample_rate self / 2 \<le> high_freq then Inr (True, iq)
      else bindE (f 6 (low_freq / (sample_rate self / 2)) (high_freq / (sample_rate self / 2))
                   (map Re iq)) (\<lambda>i_filtered.
           bindE (f 6 (low_freq / (sample_rate self / 2)) (high_freq / (sample_rate self / 2))
                   (map Im iq)) (\<lambda>q_filtered.
           Inr (False, map2 Complex i_filtered q_filtered))))"
proof -
  have "low_freq / (sample_rate self / 2) \<le> 0 \<longleftrightarrow> low_freq \<le> 0"
    using assms by (simp add: divide_le_0_iff)
  moreover have "1 \<le> high_freq / (sample_rate self / 2) \<longleftrightarrow> sample_rate self / 2 \<le> high_freq"
    using assms by (simp add: le_divide_eq)
  ultimately show ?thesis
    using assms by (simp add: bandpass_filter_def py_div_def Let_def)
qed


theorem bandpass_filter_bypass_witness:
  "(0::real) < sample_rate \<lparr>sample_rate = 25000000\<rparr>
   \<and> bandpass_filter zero_filter \<lparr>sample_rate = 25000000\<rparr> [Complex 1 1] 4000000 13000000 6
       = Inr (True, [Complex 1 1])
   \<and> bandpass_filter zero_filter \<lparr>sample_rate = 25000000\<rparr> [Complex 1 1] 4000000 6000000 6
       = Inr (False, [Complex 0 0])"
  using bandpass_filter_bypass [of "\<lparr>sample_rate = 25000000\<rparr>" zero_filter "[Complex 1 1]" 4000000 13000000]
    bandpass_filter_bypass [of "\<lparr>sample_rate = 25000000\<rparr>" zero_filter "[Complex 1 1]" 4000000 6000000]
  by (simp add: zero_filter_def)


text \<open>
  C2 (as stated, refuted). The scans do not re-try the last 128 (Wi-Fi) or 64 (BLE) start
  positions: the loop runs over \<open>range(max(0, n - 128))\<close>, the first \<open>n - 128\<close> positions.
  For a BLE payload of 66 bytes whose Basic-ID message starts at position 1, the whole
  payload and the suffix at 0 are rejected and the record of the suffix at 1 is returned,
  although 1 is not among the last 64 positions; the same holds on the Wi-Fi path for a
  payload of 130 bytes and the last 128 positions.
\<close>

theorem suffix_scan_counterexample:
  "try_decode (\<lambda>k. 0) (id_frame 43) = Some (id_record 0)
   \<and> length (id_frame 43) = 66
   \<and> accepted_at (\<lambda>k. 0) (id_frame 43) 0 = None
   \<and> accepted_at (\<lambda>k. 0) (id_frame 43) 1 = Some (id_record 0)
   \<and> (1 :: nat) < length (id_frame 43) - 64
   \<and> try_decode_from_bytes (\<lambda>k. 0) (id_frame 107) = Some (id_record 0)
   \<and> length (id_frame 107) = 130
   \<and> accepted_at (\<lambda>k. 0) (id_frame 107) 0 = None
   \<and> accepted_at (\<lambda>k. 0) (id_frame 107) 1 = Some (id_record 0)
   \<and> (1 :: nat) < length (id_frame 107) - 128"
  by (simp add: try_decode_def try_decode_from_bytes_def decode_frame_A decode_frame_B
      frame_filters id_frame_length range_stop_def scan_frame id_frame_drop accepted_at_def)

text \<open>
  C2 (amended). In both scans the whole input is decoded first and accepted if it passes
  the test of the first attempt. Otherwise the suffixes \<open>data[j:]\<close> are decoded for
  \<open>j = 0, 1, ..., n - 129\<close> on the Wi-Fi path and \<open>j = 0, 1, ..., n - 65\<close> on the BLE path,
  in this order: these are the suffixes of more than 128 (64) bytes, none when the input
  has at most 128 (64) bytes. The result is the record of the first suffix whose record
  has an allowed identifier type with a plausible identifier, or a location, and \<open>None\<close>
  if there is none.
\<close>

theorem suffix_scan_positions:
  "\<exists>rid. decode_from_raw_bytes (clock 0) data = Inr (Some rid)
     \<and> try_decode_from_bytes clock data =
         (if id_ok_first rid \<or> has_location rid then Some rid
          else (case find (\<lambda>j. accepted_at clock data j \<noteq> None) [0..<length data - 128] of
                  None \<Rightarrow> None
                | Some j \<Rightarrow> accepted_at clock data j))
     \<and> try_decode clock data =
         (if id_ok rid \<or> has_location rid then Some rid
          else (case find (\<lambda>j. accepted_at clock data j \<noteq> None) [0..<length data - 64] of
                  None \<Rightarrow> None
                | Some j \<Rightarrow> accepted_at clock data j))
     \<and> list_all (\<lambda>j. 128 < length (drop j data)) [0..<length data - 128]
     \<and> list_all (\<lambda>j. 64 < length (drop j data)) [0..<length data - 64]"
proof -
  obtain rid where d: "decode_from_raw_bytes (clock 0) data = Inr (Some rid)"
    using decode_from_raw_bytes_total by blast
  have r: "range_stop n w = n - w" for n w
    by (simp add: range_stop_def)
  have "list_all (\<lambda>j. 128 < length (drop j data)) [0..<length data - 128]"
    "list_all (\<lambda>j. 64 < length (drop j data)) [0..<length data - 64]"
    by (auto simp: list_all_iff)
  then show ?thesis
    using d by (simp add: try_decode_from_bytes_def try_decode_def suffix_scan_find r)
qed







end
